theory Spec2Isabelle
  imports Main "HOL-Library.Word" "HOL-Library.Sublist"
begin

section \<open>The multiplayer IPC layer of \<^verbatim>\<open>src/game/multiplayer.c\<close>\<close>

text \<open>
  A C string is modelled by the list of its characters before the terminating NUL, a
  \<^verbatim>\<open>char\<close> array of size \<open>n\<close> by a string of fewer than \<open>n\<close> characters, a C
  \<^verbatim>\<open>int\<close> by a 32-bit word read with \<open>sint\<close>, a pointer that may be \<^verbatim>\<open>NULL\<close> by an
  option. Raw bytes that come out of the pipe are a character list that may hold NUL.
\<close>

subsection \<open>Characters and the C library functions the module calls\<close>

type_synonym cint = "32 word"

definition NUL :: char where
  "NUL = CHR 0x00"

definition newline :: char where
  "newline = CHR 0x0A"

definition dquote :: char where
  \<open>dquote = CHR ''"''\<close>

definition c_str :: "string \<Rightarrow> string" where
  \<comment> \<open>What a reader of a \<^verbatim>\<open>const char*\<close> sees of a byte buffer: the bytes before the first NUL.\<close>
  "c_str bs = takeWhile (\<lambda>c. c \<noteq> NUL) bs"

definition snprintf :: "nat \<Rightarrow> string \<Rightarrow> string" where
  \<comment> \<open>\<^verbatim>\<open>snprintf(buf, size, ...)\<close> keeps at most \<open>size - 1\<close> characters of the formatted text.\<close>
  "snprintf n s = take (n - 1) s"

definition strncpy :: "string \<Rightarrow> nat \<Rightarrow> string" where
  \<comment> \<open>\<^verbatim>\<open>strncpy(dst, src, n)\<close> into an array whose byte \<open>n\<close> is NUL: the first \<open>n\<close> characters.\<close>
  "strncpy src n = take n src"

fun strstr :: "string \<Rightarrow> string \<Rightarrow> string option" where
  "strstr [] needle = (if needle = [] then Some [] else None)"
| "strstr (h # hs) needle =
     (if prefix needle (h # hs) then Some (h # hs) else strstr hs needle)"

definition strchr :: "string \<Rightarrow> char \<Rightarrow> string option" where
  "strchr s c = (if c \<in> set s then Some (dropWhile (\<lambda>x. x \<noteq> c) s) else None)"

definition isspace :: "char \<Rightarrow> bool" where
  "isspace c = (c = CHR '' '' \<or> (9 \<le> (of_char c :: nat) \<and> (of_char c :: nat) \<le> 13))"

definition isdigit :: "char \<Rightarrow> bool" where
  "isdigit c = (48 \<le> (of_char c :: nat) \<and> (of_char c :: nat) \<le> 57)"

definition digit_val :: "char \<Rightarrow> int" where
  "digit_val c = int (of_char c) - 48"

fun atoi_digits :: "int \<Rightarrow> string \<Rightarrow> int" where
  "atoi_digits acc [] = acc"
| "atoi_digits acc (c # cs) =
     (if isdigit c then atoi_digits (acc * 10 + digit_val c) cs else acc)"

definition INT_MAX :: int where
  "INT_MAX = 2147483647"

definition INT_MIN :: int where
  "INT_MIN = - 2147483648"

definition atoi :: "string \<Rightarrow> cint" where
  \<comment> \<open>Leading white space, an optional sign, then the longest run of decimal digits. A value
      outside \<^verbatim>\<open>int\<close> is undefined in ISO C; the Microsoft runtime this Win32 module links
      against returns \<^verbatim>\<open>INT_MAX\<close> or \<^verbatim>\<open>INT_MIN\<close>, which is what is written here.\<close>
  "atoi s =
     (let t = dropWhile isspace s;
          neg = (t \<noteq> [] \<and> hd t = CHR ''-'');
          u = (if t \<noteq> [] \<and> (hd t = CHR ''-'' \<or> hd t = CHR ''+'') then tl t else t);
          v = atoi_digits 0 u;
          r = (if neg then - v else v)
      in word_of_int (max INT_MIN (min INT_MAX r)))"

definition digit_char :: "nat \<Rightarrow> char" where
  "digit_char d = char_of (48 + d)"

fun dec_digits :: "nat \<Rightarrow> string" where
  "dec_digits n =
     (if n < 10 then [digit_char n] else dec_digits (n div 10) @ [digit_char (n mod 10)])"

declare dec_digits.simps [simp del]

definition fmt_d :: "cint \<Rightarrow> string" where
  \<comment> \<open>The \<^verbatim>\<open>%d\<close> conversion of \<^verbatim>\<open>printf\<close>.\<close>
  "fmt_d w = (if sint w < 0 then CHR ''-'' # dec_digits (nat (- sint w)) else dec_digits (nat (sint w)))"

definition fmt_bool :: "bool \<Rightarrow> string" where
  \<comment> \<open>\<^verbatim>\<open>state->is_dead ? "true" : "false"\<close>\<close>
  "fmt_bool b = (if b then ''true'' else ''false'')"

subsection \<open>The field lookups on a frame\<close>

definition json_find_string :: "string \<Rightarrow> string \<Rightarrow> string option" where
  \<comment> \<open>Lines 260 to 269 of \<^verbatim>\<open>json_get_string\<close>: the characters between \<^verbatim>\<open>start\<close> and
      \<^verbatim>\<open>end\<close>, before \<^verbatim>\<open>len\<close> is cut to the size of the destination.\<close>
  \<open>json_find_string json key =
     (let search = snprintf 64 (''"'' @ key @ ''":"'') in
      case strstr json search of
        None \<Rightarrow> None
      | Some found \<Rightarrow>
          (let start = drop (length search) found in
           case strchr start dquote of
             None \<Rightarrow> None
           | Some end \<Rightarrow> Some (take (length start - length end) start)))\<close>

definition json_get_string :: "string \<Rightarrow> string \<Rightarrow> nat \<Rightarrow> string option" where
  \<comment> \<open>\<open>None\<close> is the \<^verbatim>\<open>NULL\<close> result, which leaves \<^verbatim>\<open>out\<close> as it was; \<open>Some v\<close> is what
      \<^verbatim>\<open>out\<close> holds afterwards. Every call site passes a positive \<^verbatim>\<open>out_size\<close>.\<close>
  "json_get_string json key out_size =
     (case json_find_string json key of
        None \<Rightarrow> None
      | Some v \<Rightarrow>
          (let len = length v;
               len' = (if len \<ge> out_size then out_size - 1 else len)
           in Some (strncpy v len')))"

definition json_get_int :: "string \<Rightarrow> string \<Rightarrow> cint \<Rightarrow> cint" where
  \<open>json_get_int json key default_val =
     (let search = snprintf 64 (''"'' @ key @ ''":'') in
      case strstr json search of
        None \<Rightarrow> default_val
      | Some found \<Rightarrow> atoi (drop (length search) found))\<close>

definition json_get_bool :: "string \<Rightarrow> string \<Rightarrow> bool \<Rightarrow> bool" where
  \<open>json_get_bool json key default_val =
     (let search = snprintf 64 (''"'' @ key @ ''":'') in
      case strstr json search of
        None \<Rightarrow> default_val
      | Some found \<Rightarrow>
          (let start = dropWhile (\<lambda>c. c = CHR '' '') (drop (length search) found)
           in take 4 start = ''true''))\<close>

subsection \<open>The data of \<^verbatim>\<open>multiplayer.h\<close> and the static state of the module\<close>

record MultiplayerSession =
  session_id :: string
  participant_id :: string
  pipe_name :: string
  is_host :: bool

record PlayerState =
  state_participant_id :: string
  tile_index :: cint
  elevation :: cint
  rotation :: cint
  current_hp :: cint
  max_hp :: cint
  current_ap :: cint
  max_ap :: cint
  is_dead :: bool

record PlayerAction =
  action_type :: string
  target_tile :: cint
  target_id :: string
  weapon_mode :: string
  aimed_location :: string
  item_id :: string

text \<open>
  A callback is a function pointer, here a number; the handlers themselves are code of the
  host game and are taken not to call back into the module. What the module does to the
  outside is kept in three lists that only grow: the calls of handlers, the calls of
  \<^verbatim>\<open>WriteFile\<close> and \<^verbatim>\<open>CloseHandle\<close> on the pipe, and the frames handed to
  \<^verbatim>\<open>process_message\<close>.
\<close>

datatype callback_call =
  TurnStartCall nat string cint
| RemoteActionCall nat PlayerAction
| PlayerStateCall nat PlayerState

datatype pipe_call =
  WriteFileCall nat string
| CloseHandleCall nat

record mp_state =
  mp_active :: bool
  mp_session :: MultiplayerSession
  pipe_handle :: "nat option"  \<comment> \<open>\<open>None\<close> is \<^verbatim>\<open>INVALID_HANDLE_VALUE\<close>\<close>
  current_turn_player :: string
  is_my_turn :: bool
  on_turn_start :: "nat option"
  on_remote_action :: "nat option"
  on_player_state :: "nat option"
  msg_buffer :: string  \<comment> \<open>the bytes \<^verbatim>\<open>msg_buffer[0 .. msg_buffer_pos - 1]\<close>\<close>
  dispatched :: "callback_call list"
  pipe_calls :: "pipe_call list"
  processed :: "string list"

definition MSG_BUFFER_SIZE :: nat where
  "MSG_BUFFER_SIZE = 4096"

definition msg_buffer_pos :: "mp_state \<Rightarrow> nat" where
  "msg_buffer_pos st = length (msg_buffer st)"

definition initial_state :: mp_state where
  "initial_state =
     \<lparr>mp_active = False,
      mp_session = \<lparr>session_id = [], participant_id = [], pipe_name = [], is_host = False\<rparr>,
      pipe_handle = None,
      current_turn_player = [],
      is_my_turn = False,
      on_turn_start = None,
      on_remote_action = None,
      on_player_state = None,
      msg_buffer = [],
      dispatched = [],
      pipe_calls = [],
      processed = []\<rparr>"

subsection \<open>Queries and registration\<close>

definition mp_is_active :: "mp_state \<Rightarrow> bool" where
  "mp_is_active st = mp_active st"

definition mp_is_my_turn :: "mp_state \<Rightarrow> bool" where
  "mp_is_my_turn st = (mp_active st \<and> is_my_turn st)"

definition mp_get_session :: "mp_state \<Rightarrow> MultiplayerSession option" where
  "mp_get_session st = (if mp_active st then Some (mp_session st) else None)"

definition mp_get_current_turn_player :: "mp_state \<Rightarrow> string option" where
  \<comment> \<open>\<^verbatim>\<open>current_turn_player[0] ? current_turn_player : NULL\<close>\<close>
  "mp_get_current_turn_player st =
     (if current_turn_player st \<noteq> [] then Some (current_turn_player st) else None)"

definition mp_set_turn_start_callback :: "nat option \<Rightarrow> mp_state \<Rightarrow> mp_state" where
  "mp_set_turn_start_callback cb st = st\<lparr>on_turn_start := cb\<rparr>"

definition mp_set_remote_action_callback :: "nat option \<Rightarrow> mp_state \<Rightarrow> mp_state" where
  "mp_set_remote_action_callback cb st = st\<lparr>on_remote_action := cb\<rparr>"

definition mp_set_player_state_callback :: "nat option \<Rightarrow> mp_state \<Rightarrow> mp_state" where
  "mp_set_player_state_callback cb st = st\<lparr>on_player_state := cb\<rparr>"

subsection \<open>Decoding: \<^verbatim>\<open>process_message\<close>\<close>

definition get_string_or :: "string \<Rightarrow> string \<Rightarrow> string \<Rightarrow> nat \<Rightarrow> string" where
  \<comment> \<open>A destination that held \<open>prior\<close> and is then passed to \<^verbatim>\<open>json_get_string\<close>.\<close>
  "get_string_or prior json key out_size =
     (case json_get_string json key out_size of None \<Rightarrow> prior | Some v \<Rightarrow> v)"

definition decode_remote_action :: "string \<Rightarrow> PlayerAction" where
  \<comment> \<open>Lines 313 to 319: the \<^verbatim>\<open>PlayerAction action = {0}\<close> filled from the frame.\<close>
  "decode_remote_action json =
     \<lparr>action_type = get_string_or [] json ''action'' 32,
      target_tile = json_get_int json ''targetTile'' 0,
      target_id = get_string_or [] json ''targetId'' 64,
      weapon_mode = get_string_or [] json ''weaponMode'' 16,
      aimed_location = get_string_or [] json ''aimedLocation'' 16,
      item_id = get_string_or [] json ''itemId'' 32\<rparr>"

definition decode_player_state :: "string \<Rightarrow> PlayerState" where
  \<comment> \<open>Lines 325 to 334: the \<^verbatim>\<open>PlayerState state = {0}\<close> filled from the frame.\<close>
  "decode_player_state json =
     \<lparr>state_participant_id = get_string_or [] json ''participantId'' 64,
      tile_index = json_get_int json ''tileIndex'' 0,
      elevation = json_get_int json ''elevation'' 0,
      rotation = json_get_int json ''rotation'' 0,
      current_hp = json_get_int json ''currentHp'' 0,
      max_hp = json_get_int json ''maxHp'' 0,
      current_ap = json_get_int json ''currentAp'' 0,
      max_ap = json_get_int json ''maxAp'' 0,
      is_dead = json_get_bool json ''isDead'' False\<rparr>"

definition process_message :: "string \<Rightarrow> string \<Rightarrow> mp_state \<Rightarrow> mp_state" where
  \<comment> \<open>\<open>stack_player_id\<close> is what the local array \<^verbatim>\<open>player_id\<close>, which the code does not
      initialise, holds as a C string when the function is entered; it is read only when a
      turn-start frame has no \<^verbatim>\<open>participantId\<close>.\<close>
  "process_message stack_player_id json st =
     (let type = get_string_or [] json ''type'' 32 in
      if type = ''turn-start'' then
        (let player_id = get_string_or stack_player_id json ''participantId'' 64;
             time_limit = json_get_int json ''timeLimit'' 30;
             st1 = st\<lparr>current_turn_player := strncpy player_id 63,
                       is_my_turn := (player_id = participant_id (mp_session st))\<rparr>
         in case on_turn_start st1 of
              None \<Rightarrow> st1
            | Some cb \<Rightarrow> st1\<lparr>dispatched := dispatched st1 @ [TurnStartCall cb player_id time_limit]\<rparr>)
      else if type = ''remote-action'' then
        (case on_remote_action st of
           None \<Rightarrow> st
         | Some cb \<Rightarrow> st\<lparr>dispatched := dispatched st @ [RemoteActionCall cb (decode_remote_action json)]\<rparr>)
      else if type = ''player-state'' then
        (case on_player_state st of
           None \<Rightarrow> st
         | Some cb \<Rightarrow> st\<lparr>dispatched := dispatched st @ [PlayerStateCall cb (decode_player_state json)]\<rparr>)
      else st)"

subsection \<open>Framing: the loop of \<^verbatim>\<open>receive_messages\<close>\<close>

definition feed_byte :: "(nat \<Rightarrow> string) \<Rightarrow> mp_state \<Rightarrow> char \<Rightarrow> mp_state" where
  \<comment> \<open>One pass of the loop body, lines 244 to 252. \<open>stack k\<close> is the uninitialised
      \<^verbatim>\<open>player_id\<close> of the call of \<^verbatim>\<open>process_message\<close> that comes after \<open>k\<close> earlier ones.\<close>
  "feed_byte stack st c =
     (if c = newline then
        (let st1 =
           (if msg_buffer_pos st > 0 then
              process_message (stack (length (processed st))) (c_str (msg_buffer st))
                (st\<lparr>processed := processed st @ [c_str (msg_buffer st)]\<rparr>)
            else st)
         in st1\<lparr>msg_buffer := []\<rparr>)
      else if msg_buffer_pos st < MSG_BUFFER_SIZE - 1 then
        st\<lparr>msg_buffer := msg_buffer st @ [c]\<rparr>
      else st)"

definition feed :: "(nat \<Rightarrow> string) \<Rightarrow> string \<Rightarrow> mp_state \<Rightarrow> mp_state" where
  \<comment> \<open>The loop over the \<^verbatim>\<open>bytes_read\<close> bytes of \<^verbatim>\<open>temp\<close>.\<close>
  "feed stack bytes st = foldl (feed_byte stack) st bytes"

definition feed_chunks :: "(nat \<Rightarrow> string) \<Rightarrow> string list \<Rightarrow> mp_state \<Rightarrow> mp_state" where
  \<comment> \<open>Successive reads, one chunk each.\<close>
  "feed_chunks stack chunks st = foldl (\<lambda>s bytes. feed stack bytes s) st chunks"

datatype read_result =
  PeekFailed   \<comment> \<open>\<^verbatim>\<open>PeekNamedPipe\<close> fails\<close>
| NoData       \<comment> \<open>it reports 0 bytes available\<close>
| ReadFailed   \<comment> \<open>\<^verbatim>\<open>ReadFile\<close> fails\<close>
| Data string  \<comment> \<open>\<^verbatim>\<open>ReadFile\<close> stores these bytes in \<^verbatim>\<open>temp\<close>, at most 1023\<close>

definition receive_messages :: "(nat \<Rightarrow> string) \<Rightarrow> read_result \<Rightarrow> mp_state \<Rightarrow> bool \<times> mp_state" where
  "receive_messages stack r st =
     (if pipe_handle st = None then (False, st)
      else case r of
        Data bytes \<Rightarrow> (True, feed stack bytes st)
      | _ \<Rightarrow> (False, st))"

definition mp_poll_message :: "(nat \<Rightarrow> string) \<Rightarrow> read_result \<Rightarrow> mp_state \<Rightarrow> bool \<times> mp_state" where
  "mp_poll_message stack r st =
     (if \<not> mp_active st then (False, st) else receive_messages stack r st)"

subsection \<open>Encoding and sending\<close>

definition send_message :: "string \<Rightarrow> bool \<Rightarrow> mp_state \<Rightarrow> bool \<times> mp_state" where
  \<comment> \<open>\<open>write_ok\<close> is what the transport answers: \<^verbatim>\<open>WriteFile\<close> succeeds and writes all
      \<^verbatim>\<open>len\<close> bytes. The call is recorded with the text of \<^verbatim>\<open>buffer\<close>.\<close>
  "send_message json write_ok st =
     (case pipe_handle st of
        None \<Rightarrow> (False, st)
      | Some h \<Rightarrow>
          (write_ok,
           st\<lparr>pipe_calls := pipe_calls st @
                 [WriteFileCall h (snprintf MSG_BUFFER_SIZE (json @ [newline]))]\<rparr>))"

definition format_ready :: "string \<Rightarrow> string" where
  \<open>format_ready pid = snprintf 256 (''{"type":"ready","participantId":"'' @ pid @ ''"}'')\<close>

definition format_state :: "PlayerState \<Rightarrow> string" where
  \<open>format_state s =
     snprintf 512
       (''{"type":"state-update",'' @
        ''"participantId":"'' @ state_participant_id s @ ''",'' @
        ''"tileIndex":'' @ fmt_d (tile_index s) @ '','' @
        ''"elevation":'' @ fmt_d (elevation s) @ '','' @
        ''"rotation":'' @ fmt_d (rotation s) @ '','' @
        ''"currentHp":'' @ fmt_d (current_hp s) @ '','' @
        ''"maxHp":'' @ fmt_d (max_hp s) @ '','' @
        ''"currentAp":'' @ fmt_d (current_ap s) @ '','' @
        ''"maxAp":'' @ fmt_d (max_ap s) @ '','' @
        ''"isDead":'' @ fmt_bool (is_dead s) @ ''}'')\<close>

definition format_action :: "string \<Rightarrow> PlayerAction \<Rightarrow> string" where
  \<comment> \<open>\<open>stack_json\<close> is what the local array \<^verbatim>\<open>json\<close>, which the code does not initialise,
      holds as a C string; it is what goes out when the type is none of the four.\<close>
  \<open>format_action stack_json a =
     (if action_type a = ''move'' then
        snprintf 512 (''{"type":"action","action":"move","targetTile":'' @ fmt_d (target_tile a) @ ''}'')
      else if action_type a = ''attack'' then
        snprintf 512
          (''{"type":"action","action":"attack",'' @
           ''"targetId":"'' @ target_id a @ ''","weaponMode":"'' @ weapon_mode a @
           ''","aimedLocation":"'' @ aimed_location a @ ''"}'')
      else if action_type a = ''use-item'' then
        snprintf 512
          (''{"type":"action","action":"use-item",'' @
           ''"itemId":"'' @ item_id a @ ''","targetId":"'' @ target_id a @ ''"}'')
      else if action_type a = ''end-turn'' then
        snprintf 512 ''{"type":"action","action":"end-turn"}''
      else stack_json)\<close>

definition mp_send_state :: "PlayerState option \<Rightarrow> bool \<Rightarrow> mp_state \<Rightarrow> mp_state" where
  \<comment> \<open>The function is \<^verbatim>\<open>void\<close>: the result of \<^verbatim>\<open>send_message\<close> is dropped.\<close>
  "mp_send_state state write_ok st =
     (if \<not> mp_active st \<or> state = None then st
      else snd (send_message (format_state (the state)) write_ok st))"

definition mp_send_action :: "string \<Rightarrow> PlayerAction option \<Rightarrow> bool \<Rightarrow> mp_state \<Rightarrow> mp_state" where
  "mp_send_action stack_json action write_ok st =
     (if \<not> mp_active st \<or> action = None then st
      else snd (send_message (format_action stack_json (the action)) write_ok st))"

subsection \<open>Start and end of a session\<close>

record init_args =
  has_multiplayer_flag :: bool
  arg_pipe_name :: "string option"
  arg_session_id :: "string option"
  arg_participant_id :: "string option"

fun parse_args :: "string list \<Rightarrow> init_args \<Rightarrow> init_args" where
  \<comment> \<open>The loop of lines 39 to 49 over \<^verbatim>\<open>argv[i], argv[i + 1], ...\<close>\<close>
  "parse_args [] a = a"
| "parse_args [x] a =
     (if x = ''-multiplayer'' then a\<lparr>has_multiplayer_flag := True\<rparr> else a)"
| "parse_args (x # y # ys) a =
     (if x = ''-multiplayer'' then parse_args (y # ys) (a\<lparr>has_multiplayer_flag := True\<rparr>)
      else if x = ''-pipe'' then parse_args ys (a\<lparr>arg_pipe_name := Some y\<rparr>)
      else if x = ''-session'' then parse_args ys (a\<lparr>arg_session_id := Some y\<rparr>)
      else if x = ''-player'' then parse_args ys (a\<lparr>arg_participant_id := Some y\<rparr>)
      else parse_args (y # ys) a)"

record pipe_env =
  wait_ok :: bool            \<comment> \<open>\<^verbatim>\<open>WaitNamedPipeA\<close> succeeds within the 5000 ms\<close>
  created :: "nat option"    \<comment> \<open>the handle of \<^verbatim>\<open>CreateFileA\<close>, \<open>None\<close> when invalid\<close>
  ready_write_ok :: bool     \<comment> \<open>the write of the ready message succeeds\<close>

definition connect_to_pipe :: "pipe_env \<Rightarrow> mp_state \<Rightarrow> bool \<times> mp_state" where
  "connect_to_pipe env st =
     (if \<not> wait_ok env then (False, st)
      else (created env \<noteq> None, st\<lparr>pipe_handle := created env\<rparr>))"

definition disconnect_pipe :: "mp_state \<Rightarrow> mp_state" where
  "disconnect_pipe st =
     (case pipe_handle st of
        None \<Rightarrow> st
      | Some h \<Rightarrow> st\<lparr>pipe_handle := None, pipe_calls := pipe_calls st @ [CloseHandleCall h]\<rparr>)"

definition mp_init :: "string list \<Rightarrow> pipe_env \<Rightarrow> mp_state \<Rightarrow> bool \<times> mp_state" where
  "mp_init argv env st =
     (let a = parse_args (drop 1 argv)
                \<lparr>has_multiplayer_flag = False, arg_pipe_name = None,
                 arg_session_id = None, arg_participant_id = None\<rparr>
      in if \<not> has_multiplayer_flag a then (False, st)
         else if arg_pipe_name a = None \<or> arg_session_id a = None \<or> arg_participant_id a = None
         then (False, st)
         else
           (let st1 = st\<lparr>mp_session := (mp_session st)
                          \<lparr>pipe_name := strncpy (the (arg_pipe_name a)) 255,
                           session_id := strncpy (the (arg_session_id a)) 63,
                           participant_id := strncpy (the (arg_participant_id a)) 63\<rparr>\<rparr>;
                (ok, st2) = connect_to_pipe env st1
            in if \<not> ok then (False, st2)
               else
                 (let st3 = st2\<lparr>mp_active := True\<rparr>
                  in (True, snd (send_message (format_ready (participant_id (mp_session st3)))
                                   (ready_write_ok env) st3)))))"

definition mp_exit :: "mp_state \<Rightarrow> mp_state" where
  "mp_exit st = (if mp_active st then (disconnect_pipe st)\<lparr>mp_active := False\<rparr> else st)"

subsection \<open>Example frames and states\<close>

definition p1_state :: mp_state where
  \<comment> \<open>A connected session of participant \<^verbatim>\<open>p1\<close> with a turn-start and a remote-action handler registered.\<close>
  "p1_state =
     initial_state
       \<lparr>mp_active := True,
        mp_session := \<lparr>session_id = ''s1'', participant_id = ''p1'', pipe_name = ''pipe'',
                        is_host = False\<rparr>,
        pipe_handle := Some 7,
        on_turn_start := Some 1,
        on_remote_action := Some 2\<rparr>"

definition turn_start_frame :: "string \<Rightarrow> string" where
  \<open>turn_start_frame pid = ''{"type":"turn-start","participantId":"'' @ pid @ ''","timeLimit":30}''\<close>

definition long_id :: string where
  "long_id = replicate 64 (CHR ''a'')"

definition long_id_state :: mp_state where
  \<comment> \<open>A connected session whose participant id has the 63 characters the array can hold.\<close>
  "long_id_state =
     p1_state\<lparr>mp_session := (mp_session p1_state)\<lparr>participant_id := replicate 63 (CHR ''a'')\<rparr>\<rparr>"

definition example_player_state :: PlayerState where
  "example_player_state =
     \<lparr>state_participant_id = [], tile_index = 0, elevation = - 1, rotation = 5,
      current_hp = - 2147483648, max_hp = 2147483647, current_ap = 0, max_ap = 10,
      is_dead = True\<rparr>"

definition full_buffer_state :: mp_state where
  "full_buffer_state = initial_state\<lparr>msg_buffer := replicate 4095 (CHR ''x'')\<rparr>"

definition fits :: "nat \<Rightarrow> string \<Rightarrow> bool" where
  \<comment> \<open>A string that a \<^verbatim>\<open>char\<close> array of the given size holds with its terminator and that has
      no double quote in it.\<close>
  "fits n s = (length s < n \<and> dquote \<notin> set s)"

definition quoted_id_state :: PlayerState where
  \<comment> \<open>A player state whose participant id holds a double quote.\<close>
  \<open>quoted_id_state = example_player_state\<lparr>state_participant_id := ''a"b''\<rparr>\<close>

definition example_action :: "string \<Rightarrow> PlayerAction" where
  "example_action ty =
     \<lparr>action_type = ty, target_tile = - 5, target_id = ''p2'', weapon_mode = ''burst'',
      aimed_location = [], item_id = ''stimpak''\<rparr>"

definition long_action_frame :: string where
  \<comment> \<open>A remote-action frame with an action type of 40 and a weapon mode of 20 characters.\<close>
  \<open>long_action_frame =
     ''{"type":"remote-action","action":"'' @ replicate 40 (CHR ''x'') @
     ''","weaponMode":"'' @ replicate 20 (CHR ''y'') @ ''"}''\<close>

section \<open>Properties\<close>

subsection \<open>End of a session and the turn query\<close>

lemma mp_exit_inactive: "\<not> mp_active (mp_exit st)"
  by (simp add: mp_exit_def)

lemma mp_exit_keeps_flag: "is_my_turn (mp_exit st) = is_my_turn st"
  by (simp add: mp_exit_def disconnect_pipe_def split: option.splits)

lemma connect_to_pipe_active: "mp_active (snd (connect_to_pipe env st)) = mp_active st"
  by (simp add: connect_to_pipe_def)

lemma mp_init_failed_inactive:
  "\<not> fst (mp_init argv env st) \<Longrightarrow> mp_active (snd (mp_init argv env st)) = mp_active st"
  by (auto simp: mp_init_def Let_def connect_to_pipe_def split: prod.splits if_splits)

text \<open>
  Claim C9. Whenever the session is not active, \<^verbatim>\<open>mp_is_my_turn()\<close> answers false: in the
  initial state, after an \<^verbatim>\<open>mp_init\<close> that failed, and after \<^verbatim>\<open>mp_exit\<close>, which clears
  the active flag and leaves the turn flag \<^verbatim>\<open>is_my_turn\<close> as a turn-start message set it.
\<close>

theorem inactive_is_never_my_turn:
  "(\<not> mp_active st \<longrightarrow> \<not> mp_is_my_turn st)
   \<and> \<not> mp_is_my_turn initial_state
   \<and> (\<not> mp_active st \<and> \<not> fst (mp_init argv env st) \<longrightarrow> \<not> mp_is_my_turn (snd (mp_init argv env st)))
   \<and> \<not> mp_is_my_turn (mp_exit st)
   \<and> is_my_turn (mp_exit st) = is_my_turn st"
  using mp_init_failed_inactive [of argv env st]
  by (simp add: mp_is_my_turn_def mp_exit_inactive mp_exit_keeps_flag initial_state_def)

lemma ts_p1: "process_message [] (turn_start_frame ''p1'') p1_state =
   p1_state\<lparr>current_turn_player := ''p1'', is_my_turn := True, dispatched := [TurnStartCall 1 ''p1'' 30]\<rparr>"
  by (simp add: process_message_def turn_start_frame_def p1_state_def initial_state_def get_string_or_def
     json_get_string_def json_find_string_def snprintf_def strchr_def dquote_def strncpy_def
     json_get_int_def atoi_def isspace_def isdigit_def digit_val_def INT_MAX_def INT_MIN_def Let_def)

theorem inactive_is_never_my_turn_witness:
  "mp_is_my_turn (process_message [] (turn_start_frame ''p1'') p1_state)
   \<and> \<not> mp_active (mp_exit (process_message [] (turn_start_frame ''p1'') p1_state))
   \<and> \<not> fst (mp_init [] \<lparr>wait_ok = True, created = Some 7, ready_write_ok = True\<rparr>
              (mp_exit (process_message [] (turn_start_frame ''p1'') p1_state)))
   \<and> is_my_turn (mp_exit (process_message [] (turn_start_frame ''p1'') p1_state))
   \<and> \<not> mp_is_my_turn (mp_exit (process_message [] (turn_start_frame ''p1'') p1_state))
   \<and> \<not> mp_is_my_turn (snd (mp_init [] \<lparr>wait_ok = True, created = Some 7, ready_write_ok = True\<rparr>
              (mp_exit (process_message [] (turn_start_frame ''p1'') p1_state))))"
proof -
  let ?s = "process_message [] (turn_start_frame ''p1'') p1_state"
  let ?env = "\<lparr>wait_ok = True, created = Some 7, ready_write_ok = True\<rparr>"
  have a: "mp_is_my_turn ?s"
    unfolding ts_p1 by (simp add: mp_is_my_turn_def p1_state_def initial_state_def)
  have b: "\<not> mp_active (mp_exit ?s)"
    by (simp add: mp_exit_def)
  have c: "\<not> fst (mp_init [] ?env (mp_exit ?s))"
    by (simp add: mp_init_def)
  have d: "is_my_turn ?s"
    using a by (simp add: mp_is_my_turn_def)
  show ?thesis
    using a b c d inactive_is_never_my_turn [of "mp_exit ?s" "[]" ?env]
      inactive_is_never_my_turn [of ?s "[]" ?env]
    by blast
qed

text \<open>
  Claim C8. \<^verbatim>\<open>mp_exit\<close> is idempotent: a second call changes nothing. Called when no pipe was
  ever opened, it makes no call on the transport and changes nothing but the active flag,
  which is false afterwards; called when the session is not active, it changes nothing at all.
\<close>

theorem mp_exit_idempotent:
  "mp_exit (mp_exit st) = mp_exit st
   \<and> (pipe_handle st = None \<longrightarrow>
        mp_exit st = st\<lparr>mp_active := False\<rparr> \<and> pipe_calls (mp_exit st) = pipe_calls st)
   \<and> (\<not> mp_active st \<longrightarrow> mp_exit st = st)"
  by (simp add: mp_exit_def disconnect_pipe_def)

theorem mp_exit_idempotent_witness:
  "pipe_handle initial_state = None \<and> \<not> mp_active initial_state
   \<and> mp_exit initial_state = initial_state
   \<and> pipe_calls (mp_exit initial_state) = []
   \<and> mp_exit (mp_exit p1_state) = mp_exit p1_state
   \<and> pipe_calls (mp_exit p1_state) = [CloseHandleCall 7]"
  using mp_exit_idempotent [of initial_state] mp_exit_idempotent [of p1_state]
  by (simp add: initial_state_def p1_state_def mp_exit_def disconnect_pipe_def)

subsection \<open>The boolean field lookup\<close>

lemma strstr_None_iff: "strstr h n = None \<longleftrightarrow> (\<forall>pre post. h \<noteq> pre @ n @ post)"
proof (induction h)
  case Nil
  then show ?case by auto
next
  case (Cons a h)
  show ?case
  proof (cases "prefix n (a # h)")
    case True
    then obtain post where "a # h = n @ post" by (auto simp: prefix_def)
    then have "a # h = [] @ n @ post" by simp
    with True show ?thesis by (metis strstr.simps(2) option.distinct(1))
  next
    case False
    have "(\<exists>pre post. a # h = pre @ n @ post) \<longleftrightarrow> (\<exists>pre post. h = pre @ n @ post)"
    proof
      assume "\<exists>pre post. a # h = pre @ n @ post"
      then obtain pre post where e: "a # h = pre @ n @ post" by blast
      show "\<exists>pre post. h = pre @ n @ post"
      proof (cases pre)
        case Nil
        with e False show ?thesis by (auto simp: prefix_def)
      next
        case (Cons b pre')
        with e show ?thesis by auto
      qed
    next
      assume "\<exists>pre post. h = pre @ n @ post"
      then obtain pre post where "h = pre @ n @ post" by blast
      then have "a # h = (a # pre) @ n @ post" by simp
      then show "\<exists>pre post. a # h = pre @ n @ post" by blast
    qed
    with False Cons show ?thesis by auto
  qed
qed

lemma strstr_first:
  "(\<forall>pre' post'. pre @ n @ post = pre' @ n @ post' \<longrightarrow> length pre \<le> length pre')
   \<Longrightarrow> strstr (pre @ n @ post) n = Some (n @ post)"
proof (induction pre)
  case Nil
  show ?case
  proof (cases "n @ post")
    case Nil
    then show ?thesis by simp
  next
    case (Cons a list)
    have "prefix n (n @ post)" by simp
    with Cons show ?thesis by simp
  qed
next
  case (Cons a pre)
  have np: "\<not> prefix n (a # pre @ n @ post)"
  proof
    assume "prefix n (a # pre @ n @ post)"
    then obtain post' where "a # pre @ n @ post = [] @ n @ post'" by (auto simp: prefix_def)
    with Cons.prems have "length (a # pre) \<le> length ([] :: string)" by (metis append_Cons)
    then show False by simp
  qed
  have "\<forall>pre' post'. pre @ n @ post = pre' @ n @ post' \<longrightarrow> length pre \<le> length pre'"
  proof (intro allI impI)
    fix pre' post'
    assume "pre @ n @ post = pre' @ n @ post'"
    then have "(a # pre) @ n @ post = (a # pre') @ n @ post'" by simp
    with Cons.prems have "length (a # pre) \<le> length (a # pre')" by blast
    then show "length pre \<le> length pre'" by simp
  qed
  with Cons.IH have "strstr (pre @ n @ post) n = Some (n @ post)" by blast
  with np show ?case by simp
qed

lemma prefix_iff_take: "prefix xs ys \<longleftrightarrow> take (length xs) ys = xs"
proof
  assume "prefix xs ys"
  then show "take (length xs) ys = xs" by (auto simp: prefix_def)
next
  assume "take (length xs) ys = xs"
  then have "ys = xs @ drop (length xs) ys" by (metis append_take_drop_id)
  then show "prefix xs ys" by (rule prefixI)
qed

lemma bool_search: "length key \<le> 60 \<Longrightarrow> snprintf 64 (CHR 0x22 # key @ [CHR 0x22, CHR '':'']) = CHR 0x22 # key @ [CHR 0x22, CHR '':'']"
  by (simp add: snprintf_def)

lemma dropWhile_spaces:
  "rest = [] \<or> hd rest \<noteq> CHR '' '' \<Longrightarrow>
   dropWhile (\<lambda>c. c = CHR '' '') (replicate n (CHR '' '') @ rest) = rest"
proof -
  assume "rest = [] \<or> hd rest \<noteq> CHR '' ''"
  then have "dropWhile (\<lambda>c. c = CHR '' '') rest = rest"
    by (cases rest) auto
  then show ?thesis
    by (induction n) auto
qed

text \<open>
  Claim C6, as amended. For a key of at most 60 characters (so that the search text fits the
  64-byte array \<^verbatim>\<open>search\<close>), \<^verbatim>\<open>json_get_bool\<close> returns the caller's default when the text
  \<^verbatim>\<open>"key":\<close> does not occur in the frame. When it occurs, the default plays no part: with
  \<open>rest\<close> what follows the first occurrence and the spaces after it, the result is true when
  \<open>rest\<close> starts with \<^verbatim>\<open>true\<close> and false otherwise.
\<close>

theorem json_get_bool_lookup:
  \<open>length key \<le> 60 \<Longrightarrow>
   ((\<forall>pre post. json \<noteq> pre @ (''"'' @ key @ ''":'') @ post) \<longrightarrow> json_get_bool json key d = d)
   \<and> (json = pre @ (''"'' @ key @ ''":'') @ replicate n (CHR '' '') @ rest
      \<and> (\<forall>pre' post'. json = pre' @ (''"'' @ key @ ''":'') @ post' \<longrightarrow> length pre \<le> length pre')
      \<and> (rest = [] \<or> hd rest \<noteq> CHR '' '')
      \<longrightarrow> json_get_bool json key d = prefix ''true'' rest)\<close>
proof (intro conjI impI)
  assume k: "length key \<le> 60"
  let ?pat = \<open>''"'' @ key @ ''":''\<close>
  have s: "snprintf 64 ?pat = ?pat" using k by (simp add: snprintf_def)
  {
    assume "\<forall>pre post. json \<noteq> pre @ ?pat @ post"
    then have "strstr json ?pat = None" by (rule iffD2 [OF strstr_None_iff])
    then show "json_get_bool json key d = d"
      using k by (simp add: json_get_bool_def bool_search)
  }
  {
    assume a: "json = pre @ ?pat @ replicate n (CHR '' '') @ rest
      \<and> (\<forall>pre' post'. json = pre' @ ?pat @ post' \<longrightarrow> length pre \<le> length pre')
      \<and> (rest = [] \<or> hd rest \<noteq> CHR '' '')"
    let ?post = "replicate n (CHR '' '') @ rest"
    from a have "strstr (pre @ ?pat @ ?post) ?pat = Some (?pat @ ?post)"
      by (intro strstr_first) blast
    with a have f: "strstr json ?pat = Some (?pat @ ?post)" by simp
    have d: "dropWhile (\<lambda>c. c = CHR '' '') ?post = rest"
      using a by (intro dropWhile_spaces) blast
    have p: "prefix ''true'' rest \<longleftrightarrow> take 4 rest = ''true''"
    proof -
      have "length ''true'' = 4" by simp
      with prefix_iff_take [of "''true''" rest] show ?thesis by (simp only:)
    qed
    show "json_get_bool json key d = prefix ''true'' rest"
      using f d k by (simp add: json_get_bool_def bool_search p Let_def)
  }
qed

text \<open>
  The claim as stated fails: with the key present, a value other than \<^verbatim>\<open>true\<close> and the
  default \<^verbatim>\<open>true\<close>, the result is false and not the default.
\<close>

theorem json_get_bool_default_counterexample:
  \<open>json_get_bool ''{"isDead":false}'' ''isDead'' True = False\<close>
  by (simp add: json_get_bool_def snprintf_def)


theorem json_get_bool_lookup_witness:
  \<open>length ''isDead'' \<le> 60
   \<and> (\<forall>pre post. ''{"hp":3}'' \<noteq> pre @ (''"'' @ ''isDead'' @ ''":'') @ post)
   \<and> json_get_bool ''{"hp":3}'' ''isDead'' True = True
   \<and> ''{"isDead":  true}'' = ''{'' @ (''"'' @ ''isDead'' @ ''":'') @ replicate 2 (CHR '' '') @ ''true}''
   \<and> json_get_bool ''{"isDead":  true}'' ''isDead'' False = prefix ''true'' ''true}''
   \<and> json_get_bool ''{"isDead":  true}'' ''isDead'' False\<close>
proof -
  let ?pat = \<open>''"'' @ ''isDead'' @ ''":''\<close>
  have k: "length ''isDead'' \<le> 60" by simp
  have "strstr ''{\"hp\":3}'' ?pat = None" by simp
  then have a: \<open>\<forall>pre post. ''{"hp":3}'' \<noteq> pre @ ?pat @ post\<close>
    by (rule iffD1 [OF strstr_None_iff])
  have e: \<open>''{"isDead":  true}'' = ''{'' @ ?pat @ replicate 2 (CHR '' '') @ ''true}''\<close>
    by (simp add: numeral_2_eq_2)
  have m: \<open>\<forall>pre' post'. ''{"isDead":  true}'' = pre' @ ?pat @ post' \<longrightarrow> length ''{'' \<le> length pre'\<close>
  proof (intro allI impI)
    fix pre' post'
    assume \<open>''{"isDead":  true}'' = pre' @ ?pat @ post'\<close>
    then show "length ''{'' \<le> length pre'" by (cases pre') auto
  qed
  have r: "''true}'' = [] \<or> hd ''true}'' \<noteq> CHR '' ''" by simp
  from json_get_bool_lookup [OF k, of \<open>''{"hp":3}''\<close> True] a
  have b: \<open>json_get_bool ''{"hp":3}'' ''isDead'' True = True\<close> by blast
  from json_get_bool_lookup [OF k, of \<open>''{"isDead":  true}''\<close> False "''{''" 2 "''true}''"] e m r
  have c: \<open>json_get_bool ''{"isDead":  true}'' ''isDead'' False = prefix ''true'' ''true}''\<close> by blast
  then have d: \<open>json_get_bool ''{"isDead":  true}'' ''isDead'' False\<close> by simp
  from k a b e c d show ?thesis by blast
qed

subsection \<open>Framing\<close>

lemma process_message_msg_buffer [simp]:
  "msg_buffer (process_message j f st) = msg_buffer st"
  by (simp add: process_message_def Let_def split: option.splits)

lemma process_message_processed [simp]:
  "processed (process_message j f st) = processed st"
  by (simp add: process_message_def Let_def split: option.splits)

lemma process_message_msg_buffer_update:
  "process_message j f (st\<lparr>msg_buffer := b\<rparr>) = (process_message j f st)\<lparr>msg_buffer := b\<rparr>"
  by (simp add: process_message_def Let_def split: option.splits)

lemma feed_Nil [simp]: "feed stack [] st = st"
  by (simp add: feed_def)

lemma feed_Cons [simp]: "feed stack (c # bs) st = feed stack bs (feed_byte stack st c)"
  by (simp add: feed_def)

lemma feed_append: "feed stack (a @ b) st = feed stack b (feed stack a st)"
  by (simp add: feed_def)

lemma feed_chunks_concat: "feed_chunks stack chunks st = feed stack (concat chunks) st"
  by (induction chunks arbitrary: st) (simp_all add: feed_chunks_def feed_append)

lemma feed_byte_data:
  "c \<noteq> newline \<Longrightarrow> length (msg_buffer st) < 4095 \<Longrightarrow>
   feed_byte stack st c = st\<lparr>msg_buffer := msg_buffer st @ [c]\<rparr>"
  by (simp add: feed_byte_def msg_buffer_pos_def MSG_BUFFER_SIZE_def)

lemma feed_byte_full:
  "c \<noteq> newline \<Longrightarrow> 4095 \<le> length (msg_buffer st) \<Longrightarrow> feed_byte stack st c = st"
  by (simp add: feed_byte_def msg_buffer_pos_def MSG_BUFFER_SIZE_def)

lemma feed_byte_newline_empty:
  "msg_buffer st = [] \<Longrightarrow> feed_byte stack st newline = st"
  by (simp add: feed_byte_def msg_buffer_pos_def)

lemma feed_byte_newline:
  "msg_buffer st \<noteq> [] \<Longrightarrow>
   feed_byte stack st newline =
     (process_message (stack (length (processed st))) (c_str (msg_buffer st))
        (st\<lparr>processed := processed st @ [c_str (msg_buffer st)]\<rparr>))\<lparr>msg_buffer := []\<rparr>"
  by (simp add: feed_byte_def msg_buffer_pos_def)

lemma feed_no_newline:
  "newline \<notin> set bs \<Longrightarrow> length (msg_buffer st) \<le> 4095 \<Longrightarrow>
   feed stack bs st = st\<lparr>msg_buffer := msg_buffer st @ take (4095 - length (msg_buffer st)) bs\<rparr>"
proof (induction bs arbitrary: st)
  case Nil
  then show ?case by simp
next
  case (Cons c bs)
  show ?case
  proof (cases "length (msg_buffer st) < 4095")
    case True
    with Cons.prems have "feed_byte stack st c = st\<lparr>msg_buffer := msg_buffer st @ [c]\<rparr>"
      by (auto simp: feed_byte_data)
    moreover have "take (4095 - length (msg_buffer st)) (c # bs) =
        c # take (4095 - Suc (length (msg_buffer st))) bs"
      using True by (simp add: take_Cons')
    ultimately show ?thesis
      using Cons.IH [of "st\<lparr>msg_buffer := msg_buffer st @ [c]\<rparr>"] Cons.prems True by simp
  next
    case False
    with Cons.prems have "feed_byte stack st c = st" by (auto simp: feed_byte_full)
    with Cons.IH [of st] Cons.prems False show ?thesis by simp
  qed
qed

lemma c_str_no_NUL: "NUL \<notin> set bs \<Longrightarrow> c_str bs = bs"
  by (auto simp: c_str_def)

lemma length_c_str: "length (c_str bs) \<le> length bs"
  by (simp add: c_str_def length_takeWhile_le)

lemma feed_one_frame:
  assumes "newline \<notin> set frame" and "frame \<noteq> []" and "msg_buffer st = []"
  shows "feed stack (frame @ [newline]) st =
     (process_message (stack (length (processed st))) (c_str (take 4095 frame))
        (st\<lparr>processed := processed st @ [c_str (take 4095 frame)]\<rparr>))\<lparr>msg_buffer := []\<rparr>"
proof -
  let ?s = "st\<lparr>msg_buffer := take 4095 frame\<rparr>"
  have "feed stack frame st = ?s"
    using assms feed_no_newline [of frame st stack] by simp
  moreover have "msg_buffer ?s \<noteq> []" using assms by simp
  moreover have "(process_message j f (st\<lparr>msg_buffer := b, processed := p\<rparr>))\<lparr>msg_buffer := []\<rparr> =
      (process_message j f (st\<lparr>processed := p\<rparr>))\<lparr>msg_buffer := []\<rparr>" for j f b p
    by (simp add: process_message_def Let_def split: option.splits)
  ultimately show ?thesis
    by (simp add: feed_append feed_byte_newline)
qed


lemma process_message_unknown:
  assumes "json_get_string json ''type'' 32 \<noteq> Some ''turn-start''"
    and "json_get_string json ''type'' 32 \<noteq> Some ''remote-action''"
    and "json_get_string json ''type'' 32 \<noteq> Some ''player-state''"
  shows "process_message j json st = st"
  using assms by (auto simp: process_message_def get_string_or_def Let_def split: option.splits)

lemma feed_byte_inv:
  assumes "length (msg_buffer st) \<le> 4095"
  shows "length (msg_buffer (feed_byte stack st c)) \<le> 4095
    \<and> (\<exists>new. processed (feed_byte stack st c) = processed st @ new
           \<and> (\<forall>f\<in>set new. length f \<le> 4095))"
proof (cases "c = newline")
  case True
  show ?thesis
  proof (cases "msg_buffer st = []")
    case True
    with \<open>c = newline\<close> show ?thesis by (simp add: feed_byte_newline_empty)
  next
    case False
    have "length (c_str (msg_buffer st)) \<le> 4095"
      using assms length_c_str [of "msg_buffer st"] by simp
    with False \<open>c = newline\<close> show ?thesis by (simp add: feed_byte_newline)
  qed
next
  case False
  then show ?thesis
    using assms by (cases "length (msg_buffer st) < 4095") (simp_all add: feed_byte_data feed_byte_full)
qed

lemma feed_inv:
  "length (msg_buffer st) \<le> 4095 \<Longrightarrow>
   length (msg_buffer (feed stack bs st)) \<le> 4095
    \<and> (\<exists>new. processed (feed stack bs st) = processed st @ new
           \<and> (\<forall>f\<in>set new. length f \<le> 4095))"
proof (induction bs arbitrary: st)
  case Nil
  then show ?case by simp
next
  case (Cons c bs)
  from feed_byte_inv [OF Cons.prems, of stack c]
  obtain n1 where b: "length (msg_buffer (feed_byte stack st c)) \<le> 4095"
    and p1: "processed (feed_byte stack st c) = processed st @ n1"
    and l1: "\<forall>f\<in>set n1. length f \<le> 4095" by blast
  from Cons.IH [OF b]
  obtain n2 where b2: "length (msg_buffer (feed stack bs (feed_byte stack st c))) \<le> 4095"
    and p2: "processed (feed stack bs (feed_byte stack st c)) = processed (feed_byte stack st c) @ n2"
    and l2: "\<forall>f\<in>set n2. length f \<le> 4095" by blast
  have "processed (feed stack (c # bs) st) = processed st @ (n1 @ n2)"
    using p1 p2 by simp
  moreover have "\<forall>f\<in>set (n1 @ n2). length f \<le> 4095"
    using l1 l2 by auto
  ultimately show ?case using b2 by (metis feed_Cons)
qed

lemma process_message_plain [simp]:
  "process_message j ''A'' st = st" "process_message j ''B'' st = st" "process_message j ''C'' st = st"
  by (rule process_message_unknown;
      simp add: json_get_string_def json_find_string_def snprintf_def)+

lemma c_str_plain [simp]: "c_str ''A'' = ''A''" "c_str ''B'' = ''B''" "c_str ''C'' = ''C''"
  by (simp_all add: c_str_def NUL_def)

lemma feed_ABC:
  assumes "msg_buffer st = []"
  shows "feed stack (''A'' @ [newline] @ ''B'' @ [newline]) st = st\<lparr>processed := processed st @ [''A'', ''B'']\<rparr>"
    and "feed stack ''C'' (st\<lparr>processed := p\<rparr>) = st\<lparr>processed := p, msg_buffer := ''C''\<rparr>"
    and "feed stack [newline] (st\<lparr>processed := p, msg_buffer := ''C''\<rparr>) = st\<lparr>processed := p @ [''C'']\<rparr>"
proof -
  have s: "st\<lparr>msg_buffer := []\<rparr> = st" using assms by simp
  have n: "CHR ''A'' \<noteq> newline" "CHR ''B'' \<noteq> newline" "CHR ''C'' \<noteq> newline"
    by (simp_all add: newline_def)
  show "feed stack (''A'' @ [newline] @ ''B'' @ [newline]) st = st\<lparr>processed := processed st @ [''A'', ''B'']\<rparr>"
    using assms n s by (simp add: feed_byte_data feed_byte_newline)
  show "feed stack ''C'' (st\<lparr>processed := p\<rparr>) = st\<lparr>processed := p, msg_buffer := ''C''\<rparr>"
    using assms n by (simp add: feed_byte_data)
  show "feed stack [newline] (st\<lparr>processed := p, msg_buffer := ''C''\<rparr>) = st\<lparr>processed := p @ [''C'']\<rparr>"
    using assms n s by (simp add: feed_byte_newline)
qed

text \<open>
  Claim C3. Frames leave the loop in stream order and independently of how the bytes are cut
  into reads. From an empty buffer, \<^verbatim>\<open>A\nB\nC\n\<close> in one read hands \<^verbatim>\<open>A\<close>, \<^verbatim>\<open>B\<close>, \<^verbatim>\<open>C\<close> to
  \<^verbatim>\<open>process_message\<close> in that order; \<^verbatim>\<open>A\nB\n\<close>, then \<^verbatim>\<open>C\<close>, then \<^verbatim>\<open>\n\<close> hands over
  \<^verbatim>\<open>A\<close>, \<^verbatim>\<open>B\<close> in the first read, nothing in the second and \<^verbatim>\<open>C\<close> in the third. A frame (not
  empty, without newline or NUL, of at most 4095 bytes) followed by its newline and cut into any
  number of chunks is handed over once, as it is, and leaves the buffer empty. Bytes without a
  newline that fit are kept in the buffer, and a newline on an empty buffer hands over nothing.
  Whatever the bytes are, reading them in chunks leaves the state that reading them at once does.
\<close>

theorem frame_extraction:
  "(msg_buffer st = [] \<longrightarrow>
      processed (feed stack (''A'' @ [newline] @ ''B'' @ [newline] @ ''C'' @ [newline]) st)
        = processed st @ [''A'', ''B'', ''C''])
   \<and> (msg_buffer st = [] \<longrightarrow>
      processed (feed stack (''A'' @ [newline] @ ''B'' @ [newline]) st) = processed st @ [''A'', ''B'']
      \<and> processed (feed stack ''C'' (feed stack (''A'' @ [newline] @ ''B'' @ [newline]) st))
          = processed st @ [''A'', ''B'']
      \<and> processed (feed stack [newline]
                     (feed stack ''C'' (feed stack (''A'' @ [newline] @ ''B'' @ [newline]) st)))
          = processed st @ [''A'', ''B'', ''C''])
   \<and> (frame \<noteq> [] \<and> newline \<notin> set frame \<and> NUL \<notin> set frame \<and> length frame \<le> 4095
       \<and> concat chunks = frame @ [newline] \<and> msg_buffer st = [] \<longrightarrow>
      processed (feed_chunks stack chunks st) = processed st @ [frame]
      \<and> msg_buffer (feed_chunks stack chunks st) = [])
   \<and> (newline \<notin> set bytes \<and> length (msg_buffer st) + length bytes \<le> 4095 \<longrightarrow>
      feed stack bytes st = st\<lparr>msg_buffer := msg_buffer st @ bytes\<rparr>)
   \<and> (msg_buffer st = [] \<longrightarrow> feed stack [newline] st = st)
   \<and> feed_chunks stack chunks st = feed stack (concat chunks) st"
proof (intro conjI impI)
  assume e: "msg_buffer st = []"
  have ab: "feed stack (''A'' @ [newline] @ ''B'' @ [newline]) st
      = st\<lparr>processed := processed st @ [''A'', ''B'']\<rparr>"
    by (rule feed_ABC(1) [OF e])
  have c1: "feed stack ''C'' (st\<lparr>processed := processed st @ [''A'', ''B'']\<rparr>)
      = st\<lparr>processed := processed st @ [''A'', ''B''], msg_buffer := ''C''\<rparr>"
    by (rule feed_ABC(2) [OF e])
  have c2: "feed stack [newline] (st\<lparr>processed := processed st @ [''A'', ''B''], msg_buffer := ''C''\<rparr>)
      = st\<lparr>processed := (processed st @ [''A'', ''B'']) @ [''C'']\<rparr>"
    by (rule feed_ABC(3) [OF e])
  show "processed (feed stack (''A'' @ [newline] @ ''B'' @ [newline]) st) = processed st @ [''A'', ''B'']"
    by (simp only: ab) simp
  show "processed (feed stack ''C'' (feed stack (''A'' @ [newline] @ ''B'' @ [newline]) st))
          = processed st @ [''A'', ''B'']"
    by (simp only: ab c1) simp
  show "processed (feed stack [newline]
                     (feed stack ''C'' (feed stack (''A'' @ [newline] @ ''B'' @ [newline]) st)))
          = processed st @ [''A'', ''B'', ''C'']"
    by (simp only: ab c1 c2) simp
  have "feed stack (''A'' @ [newline] @ ''B'' @ [newline] @ ''C'' @ [newline]) st =
     feed stack [newline] (feed stack ''C'' (feed stack (''A'' @ [newline] @ ''B'' @ [newline]) st))"
    by (simp only: feed_append [symmetric] append_assoc)
  then show "processed (feed stack (''A'' @ [newline] @ ''B'' @ [newline] @ ''C'' @ [newline]) st)
        = processed st @ [''A'', ''B'', ''C'']"
    by (simp only: ab c1 c2) simp
  show "feed stack [newline] st = st"
    using e by (simp add: feed_byte_newline_empty)
next
  assume a: "frame \<noteq> [] \<and> newline \<notin> set frame \<and> NUL \<notin> set frame \<and> length frame \<le> 4095
       \<and> concat chunks = frame @ [newline] \<and> msg_buffer st = []"
  then have t: "c_str (take 4095 frame) = frame"
    by (simp add: c_str_no_NUL)
  have "feed_chunks stack chunks st = feed stack (frame @ [newline]) st"
    using a by (simp add: feed_chunks_concat)
  also have "\<dots> = (process_message (stack (length (processed st))) frame
        (st\<lparr>processed := processed st @ [frame]\<rparr>))\<lparr>msg_buffer := []\<rparr>"
    using a feed_one_frame [of frame st stack] by (simp only: t) blast
  finally have f: "feed_chunks stack chunks st = (process_message (stack (length (processed st))) frame
        (st\<lparr>processed := processed st @ [frame]\<rparr>))\<lparr>msg_buffer := []\<rparr>" .
  show "processed (feed_chunks stack chunks st) = processed st @ [frame]"
    by (simp add: f)
  show "msg_buffer (feed_chunks stack chunks st) = []"
    by (simp add: f)
next
  assume b: "newline \<notin> set bytes \<and> length (msg_buffer st) + length bytes \<le> 4095"
  then have "length bytes \<le> 4095 - length (msg_buffer st)" by arith
  then have "take (4095 - length (msg_buffer st)) bytes = bytes" by simp
  with b show "feed stack bytes st = st\<lparr>msg_buffer := msg_buffer st @ bytes\<rparr>"
    using feed_no_newline [of bytes st stack] by simp
next
  show "feed_chunks stack chunks st = feed stack (concat chunks) st"
    by (rule feed_chunks_concat)
qed


theorem frame_extraction_witness:
  "msg_buffer initial_state = []
   \<and> processed (feed (\<lambda>k. []) (''A'' @ [newline] @ ''B'' @ [newline] @ ''C'' @ [newline]) initial_state)
        = [''A'', ''B'', ''C'']
   \<and> turn_start_frame ''p1'' \<noteq> [] \<and> newline \<notin> set (turn_start_frame ''p1'')
   \<and> NUL \<notin> set (turn_start_frame ''p1'') \<and> length (turn_start_frame ''p1'') \<le> 4095
   \<and> concat [''{\"type\":\"turn-'', ''start\",\"participantId\":\"p1\",\"time'', ''Limit\":30}'', [newline]]
        = turn_start_frame ''p1'' @ [newline]
   \<and> processed (feed_chunks (\<lambda>k. [])
         [''{\"type\":\"turn-'', ''start\",\"participantId\":\"p1\",\"time'', ''Limit\":30}'', [newline]]
         initial_state) = [turn_start_frame ''p1'']
   \<and> newline \<notin> set ''C'' \<and> length (msg_buffer initial_state) + length ''C'' \<le> 4095
   \<and> feed (\<lambda>k. []) ''C'' initial_state = initial_state\<lparr>msg_buffer := ''C''\<rparr>
   \<and> feed (\<lambda>k. []) [newline] initial_state = initial_state"
proof -
  let ?chunks = "[''{\"type\":\"turn-'', ''start\",\"participantId\":\"p1\",\"time'', ''Limit\":30}'', [newline]]"
  have e: "msg_buffer initial_state = []" "processed initial_state = []"
    by (simp_all add: initial_state_def)
  have f: "turn_start_frame ''p1'' \<noteq> []" "newline \<notin> set (turn_start_frame ''p1'')"
    "NUL \<notin> set (turn_start_frame ''p1'')" "length (turn_start_frame ''p1'') \<le> 4095"
    by (simp_all add: turn_start_frame_def newline_def NUL_def)
  have c: "concat ?chunks = turn_start_frame ''p1'' @ [newline]"
    by (simp add: turn_start_frame_def)
  have b: "newline \<notin> set ''C''" "length (msg_buffer initial_state) + length ''C'' \<le> 4095"
    by (simp_all add: newline_def e)
  note t = frame_extraction [of initial_state "\<lambda>k. []" "turn_start_frame ''p1''" ?chunks "''C''"]
  from t e f c have "processed (feed_chunks (\<lambda>k. []) ?chunks initial_state)
      = processed initial_state @ [turn_start_frame ''p1'']"
    by blast
  then have 1: "processed (feed_chunks (\<lambda>k. []) ?chunks initial_state) = [turn_start_frame ''p1'']"
    by (simp only: e append_Nil)
  from t e have "processed (feed (\<lambda>k. []) (''A'' @ [newline] @ ''B'' @ [newline] @ ''C'' @ [newline]) initial_state)
        = processed initial_state @ [''A'', ''B'', ''C'']" by blast
  then have 2: "processed (feed (\<lambda>k. []) (''A'' @ [newline] @ ''B'' @ [newline] @ ''C'' @ [newline]) initial_state)
        = [''A'', ''B'', ''C'']" by (simp only: e append_Nil)
  from t e b have "feed (\<lambda>k. []) ''C'' initial_state
      = initial_state\<lparr>msg_buffer := msg_buffer initial_state @ ''C''\<rparr>"
    by blast
  then have 3: "feed (\<lambda>k. []) ''C'' initial_state = initial_state\<lparr>msg_buffer := ''C''\<rparr>"
    by (simp only: e append_Nil)
  from t e have 4: "feed (\<lambda>k. []) [newline] initial_state = initial_state" by blast
  from e f c b 1 2 3 4 show ?thesis by blast
qed

subsection \<open>The capacity of the buffer\<close>

text \<open>
  Claim C4. The buffer never holds more than \<^verbatim>\<open>MSG_BUFFER_SIZE - 1\<close> = 4095 bytes, whatever
  is fed, and every frame handed over has at most that length. A byte that arrives when the
  buffer is full and is not the newline changes nothing. An overlong run of bytes is handed over
  cut to its first 4095 bytes when the newline comes, the buffer is empty afterwards, and what
  follows is treated as after the cut frame.
\<close>

theorem buffer_never_exceeds_capacity:
  "(length (msg_buffer st) \<le> MSG_BUFFER_SIZE - 1 \<longrightarrow>
      length (msg_buffer (feed_chunks stack chunks st)) \<le> MSG_BUFFER_SIZE - 1
      \<and> (\<forall>f \<in> set (drop (length (processed st)) (processed (feed_chunks stack chunks st))).
            length f \<le> MSG_BUFFER_SIZE - 1))
   \<and> (length (msg_buffer st) = MSG_BUFFER_SIZE - 1 \<and> c \<noteq> newline \<longrightarrow> feed_byte stack st c = st)
   \<and> (msg_buffer st = [] \<and> newline \<notin> set big \<and> MSG_BUFFER_SIZE - 1 < length big \<longrightarrow>
        processed (feed stack (big @ [newline]) st)
          = processed st @ [c_str (take (MSG_BUFFER_SIZE - 1) big)]
        \<and> msg_buffer (feed stack (big @ [newline]) st) = []
        \<and> feed stack (big @ [newline] @ rest) st
          = feed stack (take (MSG_BUFFER_SIZE - 1) big @ [newline] @ rest) st)"
proof (intro conjI impI)
  assume "length (msg_buffer st) \<le> MSG_BUFFER_SIZE - 1"
  then have "length (msg_buffer st) \<le> 4095" by (simp add: MSG_BUFFER_SIZE_def)
  from feed_inv [OF this, of stack "concat chunks"]
  obtain new where b: "length (msg_buffer (feed_chunks stack chunks st)) \<le> 4095"
    and p: "processed (feed_chunks stack chunks st) = processed st @ new"
    and l: "\<forall>f\<in>set new. length f \<le> 4095"
    by (auto simp: feed_chunks_concat)
  show "length (msg_buffer (feed_chunks stack chunks st)) \<le> MSG_BUFFER_SIZE - 1"
    using b by (simp add: MSG_BUFFER_SIZE_def)
  show "\<forall>f \<in> set (drop (length (processed st)) (processed (feed_chunks stack chunks st))).
            length f \<le> MSG_BUFFER_SIZE - 1"
    using l by (simp add: p MSG_BUFFER_SIZE_def)
next
  assume "length (msg_buffer st) = MSG_BUFFER_SIZE - 1 \<and> c \<noteq> newline"
  then show "feed_byte stack st c = st"
    by (simp add: feed_byte_full MSG_BUFFER_SIZE_def)
next
  assume a: "msg_buffer st = [] \<and> newline \<notin> set big \<and> MSG_BUFFER_SIZE - 1 < length big"
  then have ne: "big \<noteq> []" and ne': "take 4095 big \<noteq> []"
    by (auto simp: MSG_BUFFER_SIZE_def)
  have nl: "newline \<notin> set (take 4095 big)"
    using a by (auto dest: in_set_takeD)
  have one: "feed stack (big @ [newline]) st =
     (process_message (stack (length (processed st))) (c_str (take 4095 big))
        (st\<lparr>processed := processed st @ [c_str (take 4095 big)]\<rparr>))\<lparr>msg_buffer := []\<rparr>"
    using a ne by (intro feed_one_frame) simp_all
  have two: "feed stack (take 4095 big @ [newline]) st =
     (process_message (stack (length (processed st))) (c_str (take 4095 big))
        (st\<lparr>processed := processed st @ [c_str (take 4095 big)]\<rparr>))\<lparr>msg_buffer := []\<rparr>"
    using feed_one_frame [OF nl ne', of st stack] a by simp
  show "processed (feed stack (big @ [newline]) st)
          = processed st @ [c_str (take (MSG_BUFFER_SIZE - 1) big)]"
    by (simp add: one MSG_BUFFER_SIZE_def)
  show "msg_buffer (feed stack (big @ [newline]) st) = []"
    by (simp add: one)
  have "feed stack (big @ [newline] @ rest) st = feed stack rest (feed stack (big @ [newline]) st)"
    by (simp only: feed_append [symmetric] append_assoc)
  also have "\<dots> = feed stack rest (feed stack (take 4095 big @ [newline]) st)"
    by (simp only: one two)
  also have "\<dots> = feed stack (take 4095 big @ [newline] @ rest) st"
    by (simp only: feed_append [symmetric] append_assoc)
  finally show "feed stack (big @ [newline] @ rest) st
          = feed stack (take (MSG_BUFFER_SIZE - 1) big @ [newline] @ rest) st"
    by (simp add: MSG_BUFFER_SIZE_def)
qed

theorem buffer_never_exceeds_capacity_witness:
  "length (msg_buffer initial_state) \<le> MSG_BUFFER_SIZE - 1
   \<and> length (msg_buffer (feed_chunks (\<lambda>k. []) [replicate 5000 (CHR ''x''), [newline], ''A''] initial_state))
        \<le> MSG_BUFFER_SIZE - 1
   \<and> length (msg_buffer full_buffer_state) = MSG_BUFFER_SIZE - 1 \<and> CHR ''y'' \<noteq> newline
   \<and> feed_byte (\<lambda>k. []) full_buffer_state (CHR ''y'') = full_buffer_state
   \<and> msg_buffer initial_state = [] \<and> newline \<notin> set (replicate 5000 (CHR ''x''))
   \<and> MSG_BUFFER_SIZE - 1 < length (replicate 5000 (CHR ''x''))
   \<and> processed (feed (\<lambda>k. []) (replicate 5000 (CHR ''x'') @ [newline]) initial_state)
        = [replicate 4095 (CHR ''x'')]
   \<and> msg_buffer (feed (\<lambda>k. []) (replicate 5000 (CHR ''x'') @ [newline]) initial_state) = []"
proof -
  let ?big = "replicate 5000 (CHR ''x'')"
  have h1: "length (msg_buffer initial_state) \<le> MSG_BUFFER_SIZE - 1" "msg_buffer initial_state = []"
    "processed initial_state = []"
    by (simp_all add: initial_state_def)
  have h2: "length (msg_buffer full_buffer_state) = MSG_BUFFER_SIZE - 1" "CHR ''y'' \<noteq> newline"
    by (simp_all add: full_buffer_state_def MSG_BUFFER_SIZE_def newline_def)
  have h3: "newline \<notin> set ?big" "MSG_BUFFER_SIZE - 1 < length ?big"
    by (simp_all add: newline_def MSG_BUFFER_SIZE_def)
  have h4: "c_str (take (MSG_BUFFER_SIZE - 1) ?big) = replicate 4095 (CHR ''x'')"
    by (simp add: c_str_def NUL_def MSG_BUFFER_SIZE_def)
  note t1 = buffer_never_exceeds_capacity
      [of initial_state "\<lambda>k. []" "[?big, [newline], ''A'']" "CHR ''y''" ?big "[]"]
  note t2 = buffer_never_exceeds_capacity
      [of full_buffer_state "\<lambda>k. []" "[]" "CHR ''y''" ?big "[]"]
  from t1 h1 have 1: "length (msg_buffer (feed_chunks (\<lambda>k. []) [?big, [newline], ''A''] initial_state))
        \<le> MSG_BUFFER_SIZE - 1" by blast
  from t2 h2 have 2: "feed_byte (\<lambda>k. []) full_buffer_state (CHR ''y'') = full_buffer_state" by blast
  from t1 h1 h3 have 3: "processed (feed (\<lambda>k. []) (?big @ [newline]) initial_state)
        = processed initial_state @ [c_str (take (MSG_BUFFER_SIZE - 1) ?big)]"
    and 4: "msg_buffer (feed (\<lambda>k. []) (?big @ [newline]) initial_state) = []" by blast+
  from 3 have 5: "processed (feed (\<lambda>k. []) (?big @ [newline]) initial_state) = [replicate 4095 (CHR ''x'')]"
    by (simp only: h4 h1 append_Nil)
  from h1 h2 h3 1 2 4 5 show ?thesis by blast
qed

subsection \<open>Frames of unknown type\<close>

text \<open>
  Claim C5. A frame whose \<^verbatim>\<open>type\<close> lookup fails or gives anything but \<^verbatim>\<open>turn-start\<close>,
  \<^verbatim>\<open>remote-action\<close> or \<^verbatim>\<open>player-state\<close> leaves the whole state as it was: no handler is called,
  the turn participant and the turn flag stay. The loop goes on with the bytes after the frame,
  and the poll returns true.
\<close>

theorem unknown_type_is_ignored:
  "(json_get_string json ''type'' 32 \<notin> {Some ''turn-start'', Some ''remote-action'', Some ''player-state''}
     \<longrightarrow> process_message j json st = st)
   \<and> (json_get_string json ''type'' 32 \<notin> {Some ''turn-start'', Some ''remote-action'', Some ''player-state''}
      \<and> json \<noteq> [] \<and> newline \<notin> set json \<and> NUL \<notin> set json \<and> length json \<le> 4095
      \<and> msg_buffer st = [] \<longrightarrow>
        feed stack (json @ [newline] @ rest) st
          = feed stack rest (st\<lparr>processed := processed st @ [json]\<rparr>)
        \<and> (mp_active st \<and> pipe_handle st \<noteq> None \<longrightarrow>
             mp_poll_message stack (Data (json @ [newline] @ rest)) st
               = (True, feed stack rest (st\<lparr>processed := processed st @ [json]\<rparr>))))"
proof (intro conjI impI)
  assume "json_get_string json ''type'' 32 \<notin> {Some ''turn-start'', Some ''remote-action'', Some ''player-state''}"
  then show "process_message j json st = st"
    by (intro process_message_unknown) simp_all
next
  assume a: "json_get_string json ''type'' 32 \<notin> {Some ''turn-start'', Some ''remote-action'', Some ''player-state''}
      \<and> json \<noteq> [] \<and> newline \<notin> set json \<and> NUL \<notin> set json \<and> length json \<le> 4095
      \<and> msg_buffer st = []"
  then have u: "process_message k json s = s" for k s
    by (intro process_message_unknown) simp_all
  have t: "c_str (take 4095 json) = json"
    using a by (simp add: c_str_no_NUL)
  have "feed stack (json @ [newline]) st = (st\<lparr>processed := processed st @ [json]\<rparr>)\<lparr>msg_buffer := []\<rparr>"
    using a feed_one_frame [of json st stack] by (simp only: t u) blast
  also have "\<dots> = st\<lparr>processed := processed st @ [json]\<rparr>"
    using a by simp
  finally have one: "feed stack (json @ [newline]) st = st\<lparr>processed := processed st @ [json]\<rparr>" .
  have "feed stack (json @ [newline] @ rest) st = feed stack rest (feed stack (json @ [newline]) st)"
    by (simp only: feed_append [symmetric] append_assoc)
  then show f: "feed stack (json @ [newline] @ rest) st
          = feed stack rest (st\<lparr>processed := processed st @ [json]\<rparr>)"
    by (simp only: one)
  assume "mp_active st \<and> pipe_handle st \<noteq> None"
  then show "mp_poll_message stack (Data (json @ [newline] @ rest)) st
               = (True, feed stack rest (st\<lparr>processed := processed st @ [json]\<rparr>))"
    by (simp only: f [symmetric]) (simp add: mp_poll_message_def receive_messages_def)
qed


theorem unknown_type_is_ignored_witness:
  \<open>json_get_string ''{"type":"bogus"}'' ''type'' 32
       \<notin> {Some ''turn-start'', Some ''remote-action'', Some ''player-state''}
   \<and> json_get_string ''{"hp":3}'' ''type'' 32
       \<notin> {Some ''turn-start'', Some ''remote-action'', Some ''player-state''}
   \<and> ''{"type":"bogus"}'' \<noteq> [] \<and> newline \<notin> set ''{"type":"bogus"}''
   \<and> NUL \<notin> set ''{"type":"bogus"}'' \<and> length ''{"type":"bogus"}'' \<le> 4095
   \<and> msg_buffer p1_state = [] \<and> mp_active p1_state \<and> pipe_handle p1_state \<noteq> None
   \<and> process_message [] ''{"type":"bogus"}'' p1_state = p1_state
   \<and> process_message [] ''{"hp":3}'' p1_state = p1_state
   \<and> mp_poll_message (\<lambda>k. []) (Data (''{"type":"bogus"}'' @ [newline] @ [])) p1_state
        = (True, p1_state\<lparr>processed := [''{"type":"bogus"}'']\<rparr>)\<close>
proof -
  let ?j = \<open>''{"type":"bogus"}''\<close>
  have a: "json_get_string ?j ''type'' 32
       \<notin> {Some ''turn-start'', Some ''remote-action'', Some ''player-state''}"
    by (simp add: json_get_string_def json_find_string_def snprintf_def strchr_def dquote_def
          strncpy_def)
  have b: \<open>json_get_string ''{"hp":3}'' ''type'' 32
       \<notin> {Some ''turn-start'', Some ''remote-action'', Some ''player-state''}\<close>
    by (simp add: json_get_string_def json_find_string_def snprintf_def)
  have c: "?j \<noteq> []" "newline \<notin> set ?j" "NUL \<notin> set ?j" "length ?j \<le> 4095"
    by (simp_all add: newline_def NUL_def)
  have d: "msg_buffer p1_state = []" "mp_active p1_state" "pipe_handle p1_state \<noteq> None"
    "processed p1_state = []"
    by (simp_all add: p1_state_def initial_state_def)
  from unknown_type_is_ignored [of ?j "[]" p1_state "\<lambda>k. []" "[]"] a c d
  have 1: "process_message [] ?j p1_state = p1_state"
    and 2: "mp_poll_message (\<lambda>k. []) (Data (?j @ [newline] @ [])) p1_state
        = (True, feed (\<lambda>k. []) [] (p1_state\<lparr>processed := processed p1_state @ [?j]\<rparr>))"
    by blast+
  from unknown_type_is_ignored [of \<open>''{"hp":3}''\<close> "[]" p1_state "\<lambda>k. []" "[]"] b
  have 3: \<open>process_message [] ''{"hp":3}'' p1_state = p1_state\<close> by blast
  from 2 have 4: "mp_poll_message (\<lambda>k. []) (Data (?j @ [newline] @ [])) p1_state
        = (True, p1_state\<lparr>processed := [?j]\<rparr>)"
    by (simp only: d feed_Nil append_Nil)
  from a b c d 1 3 4 show ?thesis by blast
qed

subsection \<open>Searching a frame whose values hold no double quote\<close>

lemma prefix_no_quote:
  \<open>CHR ''"'' \<notin> set v \<Longrightarrow> CHR ''"'' \<in> set n \<Longrightarrow>
   prefix n (v @ CHR ''"'' # r) =
     (takeWhile (\<lambda>c. c \<noteq> CHR ''"'') n = v \<and> prefix (tl (dropWhile (\<lambda>c. c \<noteq> CHR ''"'') n)) r)\<close>
proof (induction n arbitrary: v)
  case Nil
  then show ?case by simp
next
  case (Cons a n)
  show ?case
  proof (cases v)
    case Nil
    with Cons.prems show ?thesis by auto
  next
    case (Cons b v')
    show ?thesis
    proof (cases \<open>a = CHR ''"''\<close>)
      case True
      with Cons Cons.prems show ?thesis by auto
    next
      case False
      with Cons.prems have \<open>CHR ''"'' \<in> set n\<close> by simp
      with Cons.IH [of v'] Cons.prems Cons False show ?thesis by auto
    qed
  qed
qed

lemma strstr_skip_no_quote:
  \<open>CHR ''"'' \<notin> set v \<Longrightarrow> strstr (v @ r) (CHR ''"'' # n) = strstr r (CHR ''"'' # n)\<close>
  by (induction v) auto

lemma of_char_digit_char: "d < 10 \<Longrightarrow> (of_char (digit_char d) :: nat) = 48 + d"
  by (simp add: digit_char_def)

lemma digit_char_no_quote: \<open>d < 10 \<Longrightarrow> digit_char d \<noteq> CHR ''"''\<close>
proof
  assume d: "d < 10" and e: \<open>digit_char d = CHR ''"''\<close>
  have "(of_char (digit_char d) :: nat) = 48 + d" using d by (rule of_char_digit_char)
  with e have "(34 :: nat) = 48 + d" by simp
  then show False by arith
qed


subsection \<open>Printing and reading integers\<close>

lemma isdigit_digit_char: "d < 10 \<Longrightarrow> isdigit (digit_char d)"
  by (simp add: isdigit_def of_char_digit_char)

lemma digit_val_digit_char: "d < 10 \<Longrightarrow> digit_val (digit_char d) = int d"
  by (simp add: digit_val_def of_char_digit_char)

lemma dec_digits_no_quote: \<open>CHR ''"'' \<notin> set (dec_digits n)\<close>
proof (induction n rule: dec_digits.induct)
  case (1 n)
  show ?case
  proof (cases "n < 10")
    case True
    then show ?thesis
      using digit_char_no_quote [of n] by (subst dec_digits.simps) auto
  next
    case False
    have "n mod 10 < 10" by simp
    with False 1 show ?thesis
      using digit_char_no_quote [of "n mod 10"] by (subst dec_digits.simps) auto
  qed
qed

lemma dec_digits_not_Nil: "dec_digits n \<noteq> []"
  by (subst dec_digits.simps) simp

lemma isdigit_hd_dec_digits: "isdigit (hd (dec_digits n))"
proof (induction n rule: dec_digits.induct)
  case (1 n)
  show ?case
  proof (cases "n < 10")
    case True
    then show ?thesis by (subst dec_digits.simps) (simp add: isdigit_digit_char)
  next
    case False
    with 1 show ?thesis
      by (subst dec_digits.simps) (simp add: dec_digits_not_Nil)
  qed
qed

lemma atoi_digits_dec_digits:
  "atoi_digits acc (dec_digits n @ rest) = atoi_digits (acc * 10 ^ length (dec_digits n) + int n) rest"
proof (induction n arbitrary: acc rest rule: dec_digits.induct)
  case (1 n)
  show ?case
  proof (cases "n < 10")
    case True
    then have "dec_digits n = [digit_char n]" by (subst dec_digits.simps) simp
    with True show ?thesis
      by (simp add: isdigit_digit_char digit_val_digit_char)
  next
    case False
    let ?q = "n div 10" and ?d = "n mod 10"
    have m: "?d < 10" by simp
    have e: "dec_digits n = dec_digits ?q @ [digit_char ?d]"
      using False by (subst dec_digits.simps) simp
    have "atoi_digits acc (dec_digits n @ rest) =
        atoi_digits acc (dec_digits ?q @ digit_char ?d # rest)"
      by (simp add: e)
    also have "\<dots> = atoi_digits (acc * 10 ^ length (dec_digits ?q) + int ?q) (digit_char ?d # rest)"
      using False by (intro "1.IH") simp
    also have "\<dots> = atoi_digits ((acc * 10 ^ length (dec_digits ?q) + int ?q) * 10 + int ?d) rest"
      using m by (simp add: isdigit_digit_char digit_val_digit_char)
    also have "(acc * 10 ^ length (dec_digits ?q) + int ?q) * 10 + int ?d =
        acc * 10 ^ length (dec_digits n) + int n"
    proof -
      have "int ?q * 10 + int ?d = int n" by (simp add: zmod_int zdiv_int)
      then show ?thesis by (simp add: e algebra_simps)
    qed
    finally show ?thesis .
  qed
qed

lemma atoi_digits_stop:
  "\<not> isdigit c \<Longrightarrow> atoi_digits 0 (dec_digits n @ c # r) = int n"
  by (simp add: atoi_digits_dec_digits)

lemma length_dec_digits: "0 < k \<Longrightarrow> n < 10 ^ k \<Longrightarrow> length (dec_digits n) \<le> k"
proof (induction n arbitrary: k rule: dec_digits.induct)
  case (1 n)
  show ?case
  proof (cases "n < 10")
    case True
    then have "dec_digits n = [digit_char n]" by (subst dec_digits.simps) simp
    with "1.prems" show ?thesis by simp
  next
    case False
    have e: "dec_digits n = dec_digits (n div 10) @ [digit_char (n mod 10)]"
      using False by (subst dec_digits.simps) simp
    from False "1.prems" have k: "1 < k"
      by (cases "k = 1") auto
    then obtain k' where k': "k = Suc k'" "0 < k'" by (cases k) auto
    with "1.prems" have "n div 10 < 10 ^ k'"
      by (simp add: less_mult_imp_div_less mult.commute)
    with "1.IH" [of k'] False k' have "length (dec_digits (n div 10)) \<le> k'" by simp
    with e k' show ?thesis by simp
  qed
qed

lemma sint_cint_range: "- 2147483648 \<le> sint (w :: cint) \<and> sint w \<le> 2147483647"
  using sint_ge [of w] sint_lt [of w] by simp

lemma length_fmt_d: "length (fmt_d w) \<le> 11"
proof -
  have "nat \<bar>sint w\<bar> < 10000000000"
    using sint_cint_range [of w] by arith
  then have "nat \<bar>sint w\<bar> < 10 ^ 10" by simp
  then have "length (dec_digits (nat \<bar>sint w\<bar>)) \<le> 10"
    by (intro length_dec_digits) simp_all
  then show ?thesis
    by (cases "sint w < 0") (simp_all add: fmt_d_def abs_if)
qed

lemma fmt_d_no_quote [simp]: \<open>CHR ''"'' \<notin> set (fmt_d w)\<close>
  by (simp add: fmt_d_def dec_digits_no_quote)

lemma isdigit_facts:
  "\<not> isspace (CHR ''-'')" "\<not> isdigit (CHR ''-'')"
  "isdigit c \<Longrightarrow> \<not> isspace c" "isdigit c \<Longrightarrow> c \<noteq> CHR ''-''" "isdigit c \<Longrightarrow> c \<noteq> CHR ''+''"
  by (auto simp: isspace_def isdigit_def)

lemma atoi_fmt_d: "\<not> isdigit c \<Longrightarrow> atoi (fmt_d w @ c # r) = w"
proof (cases "sint w < 0")
  case True
  assume c: "\<not> isdigit c"
  have "atoi (fmt_d w @ c # r) =
      word_of_int (max INT_MIN (min INT_MAX (- int (nat (- sint w)))))"
    using True c by (simp add: atoi_def fmt_d_def isdigit_facts atoi_digits_stop Let_def)
  also have "\<dots> = word_of_int (sint w)"
    using True sint_cint_range [of w] by (simp add: INT_MIN_def INT_MAX_def)
  finally show ?thesis by simp
next
  case False
  assume c: "\<not> isdigit c"
  let ?ds = "dec_digits (nat (sint w))"
  obtain d ds where ds: "?ds = d # ds" using dec_digits_not_Nil [of "nat (sint w)"] by (cases ?ds) auto
  have d: "isdigit d" using isdigit_hd_dec_digits [of "nat (sint w)"] ds by simp
  have "atoi_digits 0 (?ds @ c # r) = int (nat (sint w))"
    using c by (rule atoi_digits_stop)
  then have "atoi (fmt_d w @ c # r) = word_of_int (max INT_MIN (min INT_MAX (int (nat (sint w)))))"
    using False d ds by (simp add: atoi_def fmt_d_def isdigit_facts Let_def)
  also have "\<dots> = word_of_int (sint w)"
    using False sint_cint_range [of w] by (simp add: INT_MIN_def INT_MAX_def)
  finally show ?thesis by simp
qed

subsection \<open>Lookups on frames with values free of double quotes\<close>

lemma strchr_no_quote:
  \<open>CHR ''"'' \<notin> set v \<Longrightarrow> strchr (v @ CHR ''"'' # r) dquote = Some (CHR ''"'' # r)\<close>
proof -
  assume a: \<open>CHR ''"'' \<notin> set v\<close>
  then have \<open>dropWhile (\<lambda>x. x \<noteq> CHR ''"'') (v @ CHR ''"'' # r) = CHR ''"'' # r\<close>
    by (induction v) auto
  then show ?thesis by (simp add: strchr_def dquote_def)
qed

lemma strchr_Cons:
  \<open>strchr (c # s) dquote = (if c = CHR ''"'' then Some (c # s) else strchr s dquote)\<close>
  by (simp add: strchr_def dquote_def)

lemma take_value: "take (length v + n - n) (v @ r) = v"
  by simp

lemmas lookup_defs =
  json_find_string_def json_get_int_def json_get_bool_def snprintf_def Let_def

lemmas search_simps = prefix_no_quote strstr_skip_no_quote strchr_no_quote strchr_Cons

lemma turn_start_frame_type:
  \<open>CHR ''"'' \<notin> set pid \<Longrightarrow> json_find_string (turn_start_frame pid) ''type'' = Some ''turn-start''\<close>
  by (simp add: lookup_defs turn_start_frame_def search_simps)

lemma turn_start_frame_participant:
  \<open>CHR ''"'' \<notin> set pid \<Longrightarrow> json_find_string (turn_start_frame pid) ''participantId'' = Some pid\<close>
  by (simp add: lookup_defs turn_start_frame_def search_simps)

lemma turn_start_frame_limit:
  \<open>CHR ''"'' \<notin> set pid \<Longrightarrow> json_get_int (turn_start_frame pid) ''timeLimit'' 30 = 30\<close>
  by (simp add: lookup_defs turn_start_frame_def search_simps atoi_def isspace_def isdigit_def
      digit_val_def INT_MAX_def INT_MIN_def)

subsection \<open>Turn ownership and the cut of string fields\<close>

lemma json_get_string_take:
  "0 < n \<Longrightarrow> json_get_string json key n = map_option (take (n - 1)) (json_find_string json key)"
  by (cases "json_find_string json key") (auto simp: json_get_string_def strncpy_def Let_def)

lemma get_string_or_found:
  "0 < n \<Longrightarrow> json_find_string json key = Some raw \<Longrightarrow>
   get_string_or prior json key n = take (n - 1) raw"
  by (simp add: get_string_or_def json_get_string_take)

lemma length_get_string_or: "0 < n \<Longrightarrow> length (get_string_or [] json key n) \<le> n - 1"
  by (cases "json_find_string json key") (simp_all add: get_string_or_def json_get_string_take)

lemma process_message_turn_start:
  assumes "json_get_string json ''type'' 32 = Some ''turn-start''"
    and "json_find_string json ''participantId'' = Some pid"
  shows "process_message j json st =
    (let st1 = st\<lparr>current_turn_player := take 63 pid,
                   is_my_turn := (take 63 pid = participant_id (mp_session st))\<rparr>
     in case on_turn_start st of
          None \<Rightarrow> st1
        | Some cb \<Rightarrow> st1\<lparr>dispatched := dispatched st @
            [TurnStartCall cb (take 63 pid) (json_get_int json ''timeLimit'' 30)]\<rparr>)"
proof -
  have p: "get_string_or j json ''participantId'' 64 = take 63 pid"
    using assms(2) by (simp add: get_string_or_found)
  have t: "get_string_or [] json ''type'' 32 = ''turn-start''"
    using assms(1) by (simp add: get_string_or_def)
  show ?thesis
    unfolding process_message_def t p
    by (simp add: Let_def strncpy_def split: option.splits)
qed

text \<open>
  Claim C1, as amended. Processing a frame of type \<^verbatim>\<open>turn-start\<close> whose \<^verbatim>\<open>participantId\<close>
  value is \<open>pid\<close> stores the first 63 characters of \<open>pid\<close> (all of it when it is no longer) as
  the current-turn participant and sets the turn flag exactly when these characters are the
  session's participant id; \<^verbatim>\<open>mp_is_my_turn()\<close> is then true exactly when the session is also
  active, and \<^verbatim>\<open>mp_get_current_turn_player()\<close> returns the stored id, or \<^verbatim>\<open>NULL\<close> when it is
  empty. Nothing of the state before enters the result, so the last frame received decides.
\<close>

theorem turn_start_sets_turn_state:
  "json_get_string json ''type'' 32 = Some ''turn-start''
   \<and> json_find_string json ''participantId'' = Some pid \<longrightarrow>
     current_turn_player (process_message j json st) = take 63 pid
     \<and> is_my_turn (process_message j json st) = (take 63 pid = participant_id (mp_session st))
     \<and> mp_is_my_turn (process_message j json st)
         = (mp_active st \<and> take 63 pid = participant_id (mp_session st))
     \<and> mp_get_current_turn_player (process_message j json st)
         = (if pid = [] then None else Some (take 63 pid))"
proof
  assume a: "json_get_string json ''type'' 32 = Some ''turn-start''
   \<and> json_find_string json ''participantId'' = Some pid"
  note e = process_message_turn_start [of json pid j st]
  have n: "take 63 pid = [] \<longleftrightarrow> pid = []" by simp
  from a e show "current_turn_player (process_message j json st) = take 63 pid
     \<and> is_my_turn (process_message j json st) = (take 63 pid = participant_id (mp_session st))
     \<and> mp_is_my_turn (process_message j json st)
         = (mp_active st \<and> take 63 pid = participant_id (mp_session st))
     \<and> mp_get_current_turn_player (process_message j json st)
         = (if pid = [] then None else Some (take 63 pid))"
    by (simp add: Let_def mp_is_my_turn_def mp_get_current_turn_player_def split: option.splits)
qed

lemma turn_start_frame_get_type:
  \<open>CHR ''"'' \<notin> set pid \<Longrightarrow> json_get_string (turn_start_frame pid) ''type'' 32 = Some ''turn-start''\<close>
  by (simp add: json_get_string_take turn_start_frame_type)

lemma p1_state_facts:
  "mp_active p1_state" "participant_id (mp_session p1_state) = ''p1''"
  "on_turn_start p1_state = Some 1" "on_remote_action p1_state = Some 2"
  "dispatched p1_state = []"
  by (simp_all add: p1_state_def initial_state_def)

theorem turn_start_sets_turn_state_witness:
  "json_get_string (turn_start_frame ''p1'') ''type'' 32 = Some ''turn-start''
   \<and> json_find_string (turn_start_frame ''p1'') ''participantId'' = Some ''p1''
   \<and> json_find_string (turn_start_frame ''p2'') ''participantId'' = Some ''p2''
   \<and> mp_is_my_turn (process_message [] (turn_start_frame ''p1'') p1_state)
   \<and> mp_get_current_turn_player (process_message [] (turn_start_frame ''p1'') p1_state) = Some ''p1''
   \<and> \<not> mp_is_my_turn (process_message [] (turn_start_frame ''p2'') p1_state)
   \<and> mp_get_current_turn_player (process_message [] (turn_start_frame ''p2'') p1_state) = Some ''p2''"
proof -
  have q: \<open>CHR ''"'' \<notin> set ''p1''\<close> \<open>CHR ''"'' \<notin> set ''p2''\<close> by simp_all
  note t1 = turn_start_frame_get_type [OF q(1)] and f1 = turn_start_frame_participant [OF q(1)]
  note t2 = turn_start_frame_get_type [OF q(2)] and f2 = turn_start_frame_participant [OF q(2)]
  from turn_start_sets_turn_state [of "turn_start_frame ''p1''" "''p1''" "[]" p1_state] t1 f1
  have 1: "mp_is_my_turn (process_message [] (turn_start_frame ''p1'') p1_state)"
    and 2: "mp_get_current_turn_player (process_message [] (turn_start_frame ''p1'') p1_state) = Some ''p1''"
    by (simp_all add: p1_state_facts)
  from turn_start_sets_turn_state [of "turn_start_frame ''p2''" "''p2''" "[]" p1_state] t2 f2
  have 3: "\<not> mp_is_my_turn (process_message [] (turn_start_frame ''p2'') p1_state)"
    and 4: "mp_get_current_turn_player (process_message [] (turn_start_frame ''p2'') p1_state) = Some ''p2''"
    by (simp_all add: p1_state_facts)
  from t1 f1 f2 1 2 3 4 show ?thesis by blast
qed

lemma long_id_no_quote: \<open>CHR ''"'' \<notin> set long_id\<close>
  by (simp add: long_id_def)

text \<open>
  The claim as stated fails on a participant id of 64 characters: the stored id is not the
  frame's value, and the turn flag is set although the frame's id is not the session's. It
  also fails on an empty id, after which \<^verbatim>\<open>mp_get_current_turn_player()\<close> is \<^verbatim>\<open>NULL\<close>.
\<close>

theorem turn_start_long_id_counterexample:
  "json_get_string (turn_start_frame long_id) ''type'' 32 = Some ''turn-start''
   \<and> json_find_string (turn_start_frame long_id) ''participantId'' = Some long_id
   \<and> current_turn_player (process_message [] (turn_start_frame long_id) long_id_state) \<noteq> long_id
   \<and> long_id \<noteq> participant_id (mp_session long_id_state)
   \<and> is_my_turn (process_message [] (turn_start_frame long_id) long_id_state)
   \<and> json_find_string (turn_start_frame []) ''participantId'' = Some []
   \<and> mp_get_current_turn_player (process_message [] (turn_start_frame []) p1_state) = None"
proof -
  note t = turn_start_frame_get_type [OF long_id_no_quote]
    and f = turn_start_frame_participant [OF long_id_no_quote]
  have s: "participant_id (mp_session long_id_state) = replicate 63 (CHR ''a'')"
    by (simp add: long_id_state_def)
  have k: "take 63 long_id = replicate 63 (CHR ''a'')"
    by (simp add: long_id_def)
  have l: "length long_id = 64" by (simp add: long_id_def)
  have d: "long_id \<noteq> replicate 63 (CHR ''a'')"
  proof
    assume "long_id = replicate 63 (CHR ''a'')"
    then have "length long_id = length (replicate 63 (CHR ''a''))" by simp
    with l show False by simp
  qed
  have e: "process_message [] (turn_start_frame long_id) long_id_state =
    (let st1 = long_id_state\<lparr>current_turn_player := take 63 long_id,
                   is_my_turn := (take 63 long_id = participant_id (mp_session long_id_state))\<rparr>
     in case on_turn_start long_id_state of
          None \<Rightarrow> st1
        | Some cb \<Rightarrow> st1\<lparr>dispatched := dispatched long_id_state @
            [TurnStartCall cb (take 63 long_id) (json_get_int (turn_start_frame long_id) ''timeLimit'' 30)]\<rparr>)"
    by (rule process_message_turn_start [OF t f])
  have 1: "current_turn_player (process_message [] (turn_start_frame long_id) long_id_state)
      = replicate 63 (CHR ''a'')"
    by (simp add: e k Let_def split: option.splits)
  have 2: "is_my_turn (process_message [] (turn_start_frame long_id) long_id_state)"
    by (simp add: e k s Let_def split: option.splits)
  have q: \<open>CHR ''"'' \<notin> set []\<close> by simp
  have 3: "mp_get_current_turn_player (process_message [] (turn_start_frame []) p1_state) = None"
    by (simp add: process_message_turn_start [OF turn_start_frame_get_type [OF q]
          turn_start_frame_participant [OF q]] Let_def mp_get_current_turn_player_def
        split: option.splits)
  from t f 1 2 3 d s turn_start_frame_participant [OF q] show ?thesis by simp
qed

text \<open>
  Claim C10. \<^verbatim>\<open>json_get_string\<close> with a positive \<^verbatim>\<open>out_size\<close> leaves at most
  \<^verbatim>\<open>out_size - 1\<close> characters in the destination, the first ones of the value in the frame. So
  the participant id of a turn-start is cut to 63 characters, and the cut value is what is
  stored, compared with the session's id and passed to the handler; the action passed to the
  remote-action handler has a type of at most 31, a target id of at most 63, a weapon mode and
  an aimed location of at most 15 and an item id of at most 31 characters, and the state passed
  to the player-state handler a participant id of at most 63.
\<close>

theorem string_fields_are_truncated:
  "(0 < n \<and> json_get_string json key n = Some v \<longrightarrow>
      length v \<le> n - 1 \<and> (\<exists>raw. json_find_string json key = Some raw \<and> v = take (n - 1) raw))
   \<and> (json_get_string json ''type'' 32 = Some ''turn-start''
      \<and> json_find_string json ''participantId'' = Some pid \<and> on_turn_start st = Some cb \<longrightarrow>
        current_turn_player (process_message j json st) = take 63 pid
        \<and> is_my_turn (process_message j json st) = (take 63 pid = participant_id (mp_session st))
        \<and> dispatched (process_message j json st) = dispatched st @
             [TurnStartCall cb (take 63 pid) (json_get_int json ''timeLimit'' 30)])
   \<and> (json_get_string json ''type'' 32 = Some ''remote-action'' \<and> on_remote_action st = Some cb \<longrightarrow>
        dispatched (process_message j json st) = dispatched st @
             [RemoteActionCall cb (decode_remote_action json)])
   \<and> (json_get_string json ''type'' 32 = Some ''player-state'' \<and> on_player_state st = Some cb \<longrightarrow>
        dispatched (process_message j json st) = dispatched st @
             [PlayerStateCall cb (decode_player_state json)])
   \<and> length (action_type (decode_remote_action json)) \<le> 31
   \<and> length (target_id (decode_remote_action json)) \<le> 63
   \<and> length (weapon_mode (decode_remote_action json)) \<le> 15
   \<and> length (aimed_location (decode_remote_action json)) \<le> 15
   \<and> length (item_id (decode_remote_action json)) \<le> 31
   \<and> length (state_participant_id (decode_player_state json)) \<le> 63
   \<and> (json_find_string json ''action'' = Some a \<longrightarrow>
        action_type (decode_remote_action json) = take 31 a)
   \<and> (json_find_string json ''weaponMode'' = Some w \<longrightarrow>
        weapon_mode (decode_remote_action json) = take 15 w)"
proof (intro conjI impI)
  assume a: "0 < n \<and> json_get_string json key n = Some v"
  then obtain raw where r: "json_find_string json key = Some raw" and v: "v = take (n - 1) raw"
    by (auto simp: json_get_string_take)
  from v show "length v \<le> n - 1" by simp
  from r v show "\<exists>raw. json_find_string json key = Some raw \<and> v = take (n - 1) raw" by blast
next
  assume a: "json_get_string json ''type'' 32 = Some ''turn-start''
      \<and> json_find_string json ''participantId'' = Some pid \<and> on_turn_start st = Some cb"
  then have e: "process_message j json st =
      st\<lparr>current_turn_player := take 63 pid,
         is_my_turn := (take 63 pid = participant_id (mp_session st)),
         dispatched := dispatched st @
            [TurnStartCall cb (take 63 pid) (json_get_int json ''timeLimit'' 30)]\<rparr>"
    using process_message_turn_start [of json pid j st] by (simp add: Let_def)
  show "current_turn_player (process_message j json st) = take 63 pid"
    by (simp add: e)
  show "is_my_turn (process_message j json st) = (take 63 pid = participant_id (mp_session st))"
    by (simp add: e)
  show "dispatched (process_message j json st) = dispatched st @
             [TurnStartCall cb (take 63 pid) (json_get_int json ''timeLimit'' 30)]"
    by (simp add: e)
next
  assume "json_get_string json ''type'' 32 = Some ''remote-action'' \<and> on_remote_action st = Some cb"
  then show "dispatched (process_message j json st) = dispatched st @
             [RemoteActionCall cb (decode_remote_action json)]"
    by (simp add: process_message_def get_string_or_def)
next
  assume "json_get_string json ''type'' 32 = Some ''player-state'' \<and> on_player_state st = Some cb"
  then show "dispatched (process_message j json st) = dispatched st @
             [PlayerStateCall cb (decode_player_state json)]"
    by (simp add: process_message_def get_string_or_def)
next
  show "length (action_type (decode_remote_action json)) \<le> 31"
    using length_get_string_or [of 32 json "''action''"] by (simp add: decode_remote_action_def)
  show "length (target_id (decode_remote_action json)) \<le> 63"
    using length_get_string_or [of 64 json "''targetId''"] by (simp add: decode_remote_action_def)
  show "length (weapon_mode (decode_remote_action json)) \<le> 15"
    using length_get_string_or [of 16 json "''weaponMode''"] by (simp add: decode_remote_action_def)
  show "length (aimed_location (decode_remote_action json)) \<le> 15"
    using length_get_string_or [of 16 json "''aimedLocation''"] by (simp add: decode_remote_action_def)
  show "length (item_id (decode_remote_action json)) \<le> 31"
    using length_get_string_or [of 32 json "''itemId''"] by (simp add: decode_remote_action_def)
  show "length (state_participant_id (decode_player_state json)) \<le> 63"
    using length_get_string_or [of 64 json "''participantId''"] by (simp add: decode_player_state_def)
next
  assume "json_find_string json ''action'' = Some a"
  then show "action_type (decode_remote_action json) = take 31 a"
    by (simp add: decode_remote_action_def get_string_or_found)
next
  assume "json_find_string json ''weaponMode'' = Some w"
  then show "weapon_mode (decode_remote_action json) = take 15 w"
    by (simp add: decode_remote_action_def get_string_or_found)
qed

lemma long_action_frame_lookups:
  "json_find_string long_action_frame ''type'' = Some ''remote-action''"
  "json_find_string long_action_frame ''action'' = Some (replicate 40 (CHR ''x''))"
  "json_find_string long_action_frame ''weaponMode'' = Some (replicate 20 (CHR ''y''))"
  by (simp_all add: lookup_defs long_action_frame_def search_simps)

theorem string_fields_are_truncated_witness:
  "json_get_string (turn_start_frame long_id) ''participantId'' 64 = Some (replicate 63 (CHR ''a''))
   \<and> json_find_string (turn_start_frame long_id) ''participantId'' = Some (replicate 64 (CHR ''a''))
   \<and> on_turn_start long_id_state = Some 1
   \<and> current_turn_player (process_message [] (turn_start_frame long_id) long_id_state)
        = replicate 63 (CHR ''a'')
   \<and> is_my_turn (process_message [] (turn_start_frame long_id) long_id_state)
   \<and> dispatched (process_message [] (turn_start_frame long_id) long_id_state)
        = [TurnStartCall 1 (replicate 63 (CHR ''a'')) 30]
   \<and> json_get_string long_action_frame ''type'' 32 = Some ''remote-action''
   \<and> dispatched (process_message [] long_action_frame p1_state)
        = [RemoteActionCall 2 (decode_remote_action long_action_frame)]
   \<and> action_type (decode_remote_action long_action_frame) = replicate 31 (CHR ''x'')
   \<and> weapon_mode (decode_remote_action long_action_frame) = replicate 15 (CHR ''y'')"
proof -
  let ?f = "turn_start_frame long_id"
  note t = turn_start_frame_get_type [OF long_id_no_quote]
    and f = turn_start_frame_participant [OF long_id_no_quote]
    and l = turn_start_frame_limit [OF long_id_no_quote]
  have g: "json_get_string ?f ''participantId'' 64 = Some (replicate 63 (CHR ''a''))"
    by (simp add: json_get_string_take f) (simp add: long_id_def)
  have s: "participant_id (mp_session long_id_state) = replicate 63 (CHR ''a'')"
    "on_turn_start long_id_state = Some 1" "dispatched long_id_state = []"
    by (simp_all add: long_id_state_def p1_state_def initial_state_def)
  have k: "take 63 long_id = replicate 63 (CHR ''a'')" "long_id = replicate 64 (CHR ''a'')"
    by (simp_all add: long_id_def)
  have ty: "json_get_string long_action_frame ''type'' 32 = Some ''remote-action''"
    by (simp add: json_get_string_take long_action_frame_lookups)
  note th = string_fields_are_truncated
     [of 64 ?f "''participantId''" "replicate 63 (CHR ''a'')" long_id long_id_state 1 "[]"]
  note th2 = string_fields_are_truncated
     [of 64 long_action_frame "''participantId''" "[]" "[]" p1_state 2 "[]"
         "replicate 40 (CHR ''x'')" "replicate 20 (CHR ''y'')"]
  from th t f s have 1: "current_turn_player (process_message [] ?f long_id_state) = take 63 long_id"
    and 2: "is_my_turn (process_message [] ?f long_id_state)
        = (take 63 long_id = participant_id (mp_session long_id_state))"
    and 3: "dispatched (process_message [] ?f long_id_state) = dispatched long_id_state @
             [TurnStartCall 1 (take 63 long_id) (json_get_int ?f ''timeLimit'' 30)]"
    by blast+
  from th2 ty p1_state_facts have 4: "dispatched (process_message [] long_action_frame p1_state)
        = dispatched p1_state @ [RemoteActionCall 2 (decode_remote_action long_action_frame)]"
    by blast
  from th2 long_action_frame_lookups
  have 5: "action_type (decode_remote_action long_action_frame) = take 31 (replicate 40 (CHR ''x''))"
    and 6: "weapon_mode (decode_remote_action long_action_frame) = take 15 (replicate 20 (CHR ''y''))"
    by blast+
  from g f s 1 2 3 4 5 6 ty k l show ?thesis
    by (simp add: p1_state_facts)
qed

subsection \<open>Sending\<close>

text \<open>
  Claim C7, as amended. When the session is not active, \<^verbatim>\<open>mp_send_state\<close> and
  \<^verbatim>\<open>mp_send_action\<close> write nothing and change nothing; both are \<^verbatim>\<open>void\<close>. \<^verbatim>\<open>send_message\<close>
  returns false without a write when the handle is invalid, and otherwise calls \<^verbatim>\<open>WriteFile\<close>
  once and returns its outcome, changing nothing else. \<^verbatim>\<open>mp_send_state\<close> and
  \<^verbatim>\<open>mp_send_action\<close> drop that outcome: what they leave is the same after a failed and after a
  successful write.
\<close>

theorem send_when_not_connected:
  "(\<not> mp_active st \<longrightarrow>
      mp_send_state ps w st = st \<and> mp_send_action sj pa w st = st)
   \<and> (pipe_handle st = None \<longrightarrow> send_message json w st = (False, st))
   \<and> (pipe_handle st = Some h \<longrightarrow>
        send_message json w st =
          (w, st\<lparr>pipe_calls := pipe_calls st @
                 [WriteFileCall h (snprintf MSG_BUFFER_SIZE (json @ [newline]))]\<rparr>))
   \<and> mp_send_state ps False st = mp_send_state ps True st
   \<and> mp_send_action sj pa False st = mp_send_action sj pa True st"
  by (simp add: mp_send_state_def mp_send_action_def send_message_def split: option.splits)

theorem send_when_not_connected_witness:
  "\<not> mp_active initial_state \<and> pipe_handle initial_state = None \<and> pipe_handle p1_state = Some 7
   \<and> mp_send_state (Some example_player_state) True initial_state = initial_state
   \<and> mp_send_action [] (Some \<lparr>action_type = ''end-turn'', target_tile = 0, target_id = [],
         weapon_mode = [], aimed_location = [], item_id = []\<rparr>) True initial_state = initial_state
   \<and> send_message ''{}'' True initial_state = (False, initial_state)
   \<and> send_message ''{}'' False p1_state
        = (False, p1_state\<lparr>pipe_calls := [WriteFileCall 7 (''{}'' @ [newline])]\<rparr>)"
proof -
  let ?a = "Some \<lparr>action_type = ''end-turn'', target_tile = 0, target_id = [],
         weapon_mode = [], aimed_location = [], item_id = []\<rparr>"
  have i: "\<not> mp_active initial_state" "pipe_handle initial_state = None"
    by (simp_all add: initial_state_def)
  have p: "pipe_handle p1_state = Some 7" "pipe_calls p1_state = []"
    by (simp_all add: p1_state_def initial_state_def)
  have n: "snprintf MSG_BUFFER_SIZE (''{}'' @ [newline]) = ''{}'' @ [newline]"
    by (simp add: snprintf_def MSG_BUFFER_SIZE_def)
  note t1 = send_when_not_connected
      [of initial_state "Some example_player_state" True "[]" ?a "''{}''" 7]
  note t2 = send_when_not_connected
      [of p1_state "Some example_player_state" False "[]" ?a "''{}''" 7]
  from t1 i have 1: "mp_send_state (Some example_player_state) True initial_state = initial_state"
    and 2: "mp_send_action [] ?a True initial_state = initial_state"
    and 3: "send_message ''{}'' True initial_state = (False, initial_state)"
    by blast+
  from t2 p have "send_message ''{}'' False p1_state =
      (False, p1_state\<lparr>pipe_calls := pipe_calls p1_state @
                 [WriteFileCall 7 (snprintf MSG_BUFFER_SIZE (''{}'' @ [newline]))]\<rparr>)"
    by blast
  then have 4: "send_message ''{}'' False p1_state
        = (False, p1_state\<lparr>pipe_calls := [WriteFileCall 7 (''{}'' @ [newline])]\<rparr>)"
    by (simp only: n p append_Nil)
  from i p 1 2 3 4 show ?thesis by blast
qed

text \<open>
  The claim as stated fails: in a connected session the write of a state update fails inside
  \<^verbatim>\<open>send_message\<close>, and \<^verbatim>\<open>mp_send_state\<close> gives its caller what it gives after a write that
  succeeded.
\<close>

theorem send_failure_not_reported_counterexample:
  "mp_active p1_state
   \<and> fst (send_message (format_state example_player_state) False p1_state) = False
   \<and> fst (send_message (format_state example_player_state) True p1_state) = True
   \<and> mp_send_state (Some example_player_state) False p1_state
       = mp_send_state (Some example_player_state) True p1_state
   \<and> pipe_calls (mp_send_state (Some example_player_state) False p1_state)
       = [WriteFileCall 7 (format_state example_player_state @ [newline])]"
proof -
  have l: "length (format_state example_player_state) \<le> 511"
    by (simp add: format_state_def snprintf_def)
  then have n: "snprintf MSG_BUFFER_SIZE (format_state example_player_state @ [newline])
      = format_state example_player_state @ [newline]"
    by (simp add: snprintf_def MSG_BUFFER_SIZE_def)
  show ?thesis
    by (simp add: mp_send_state_def send_message_def p1_state_def initial_state_def n)
qed

subsection \<open>Decoding what the module encodes\<close>

lemma snprintf_fits: "length s < n \<Longrightarrow> snprintf n s = s"
  by (simp add: snprintf_def)

lemma length_fmt_bool: "length (fmt_bool b) \<le> 5"
  by (simp add: fmt_bool_def)

lemma not_isdigit_sep: "\<not> isdigit (CHR '','')" "\<not> isdigit (CHR ''}'')"
  by (simp_all add: isdigit_def)

lemma format_state_text:
  assumes "length (state_participant_id s) < 64"
  shows \<open>format_state s =
       ''{"type":"state-update",'' @
        ''"participantId":"'' @ state_participant_id s @ ''",'' @
        ''"tileIndex":'' @ fmt_d (tile_index s) @ '','' @
        ''"elevation":'' @ fmt_d (elevation s) @ '','' @
        ''"rotation":'' @ fmt_d (rotation s) @ '','' @
        ''"currentHp":'' @ fmt_d (current_hp s) @ '','' @
        ''"maxHp":'' @ fmt_d (max_hp s) @ '','' @
        ''"currentAp":'' @ fmt_d (current_ap s) @ '','' @
        ''"maxAp":'' @ fmt_d (max_ap s) @ '','' @
        ''"isDead":'' @ fmt_bool (is_dead s) @ ''}''\<close>
  unfolding format_state_def
  using assms length_fmt_d [of "tile_index s"] length_fmt_d [of "elevation s"]
    length_fmt_d [of "rotation s"] length_fmt_d [of "current_hp s"] length_fmt_d [of "max_hp s"]
    length_fmt_d [of "current_ap s"] length_fmt_d [of "max_ap s"] length_fmt_bool [of "is_dead s"]
  by (intro snprintf_fits) simp

lemma format_state_participant:
  assumes "fits 64 (state_participant_id s)"
  shows "json_find_string (format_state s) ''participantId'' = Some (state_participant_id s)"
  using assms unfolding fits_def dquote_def
  by (simp add: format_state_text lookup_defs search_simps)

lemma format_state_ints:
  assumes "fits 64 (state_participant_id s)"
  shows "json_get_int (format_state s) ''tileIndex'' d = tile_index s"
    and "json_get_int (format_state s) ''elevation'' d = elevation s"
    and "json_get_int (format_state s) ''rotation'' d = rotation s"
    and "json_get_int (format_state s) ''currentHp'' d = current_hp s"
    and "json_get_int (format_state s) ''maxHp'' d = max_hp s"
    and "json_get_int (format_state s) ''currentAp'' d = current_ap s"
    and "json_get_int (format_state s) ''maxAp'' d = max_ap s"
  using assms unfolding fits_def dquote_def
  by (simp_all add: format_state_text lookup_defs search_simps atoi_fmt_d not_isdigit_sep)

lemma format_state_bool:
  assumes "fits 64 (state_participant_id s)"
  shows "json_get_bool (format_state s) ''isDead'' d = is_dead s"
  using assms unfolding fits_def dquote_def
  by (simp add: format_state_text lookup_defs search_simps fmt_bool_def)


lemma decode_format_state:
  assumes "fits 64 (state_participant_id s)"
  shows "decode_player_state (format_state s) = s"
proof -
  have "length (state_participant_id s) \<le> 63" using assms by (simp add: fits_def)
  then have "get_string_or [] (format_state s) ''participantId'' 64 = state_participant_id s"
    using format_state_participant [OF assms] by (simp add: get_string_or_found)
  then show ?thesis
    by (intro PlayerState.equality)
       (simp_all add: decode_player_state_def format_state_ints [OF assms]
          format_state_bool [OF assms])
qed

lemma format_state_type:
  assumes "length (state_participant_id s) < 64"
  shows "json_get_string (format_state s) ''type'' 32 = Some ''state-update''"
  by (simp add: json_get_string_take format_state_text [OF assms] lookup_defs search_simps)

lemma format_ready_text: "length pid < 64 \<Longrightarrow>
  format_ready pid = ''{\"type\":\"ready\",\"participantId\":\"'' @ pid @ ''\"}''"
  unfolding format_ready_def by (intro snprintf_fits) simp

lemma format_ready_lookups:
  assumes "fits 64 pid"
  shows "json_get_string (format_ready pid) ''participantId'' 64 = Some pid"
    and "json_get_string (format_ready pid) ''type'' 32 = Some ''ready''"
  using assms unfolding fits_def dquote_def
  by (simp_all add: json_get_string_take format_ready_text lookup_defs search_simps)

lemma format_move_text:
  "action_type a = ''move'' \<Longrightarrow> format_action sj a =
     ''{\"type\":\"action\",\"action\":\"move\",\"targetTile\":'' @ fmt_d (target_tile a) @ ''}''"
  unfolding format_action_def using length_fmt_d [of "target_tile a"]
  by (simp add: snprintf_fits)

lemma decode_format_move:
  assumes "action_type a = ''move''"
  shows "decode_remote_action (format_action sj a) =
     \<lparr>action_type = ''move'', target_tile = target_tile a, target_id = [], weapon_mode = [],
      aimed_location = [], item_id = []\<rparr>"
  by (simp add: decode_remote_action_def get_string_or_def json_get_string_def strncpy_def
      format_move_text [OF assms] lookup_defs search_simps atoi_fmt_d not_isdigit_sep)

lemma format_attack_text:
  assumes "action_type a = ''attack''" "length (target_id a) < 64" "length (weapon_mode a) < 16"
    "length (aimed_location a) < 16"
  shows "format_action sj a =
     ''{\"type\":\"action\",\"action\":\"attack\",'' @
     ''\"targetId\":\"'' @ target_id a @ ''\",\"weaponMode\":\"'' @ weapon_mode a @
     ''\",\"aimedLocation\":\"'' @ aimed_location a @ ''\"}''"
  unfolding format_action_def using assms by (simp add: snprintf_fits)

lemma decode_format_attack:
  assumes "action_type a = ''attack''" "fits 64 (target_id a)" "fits 16 (weapon_mode a)"
    "fits 16 (aimed_location a)"
  shows "decode_remote_action (format_action sj a) =
     \<lparr>action_type = ''attack'', target_tile = 0, target_id = target_id a,
      weapon_mode = weapon_mode a, aimed_location = aimed_location a, item_id = []\<rparr>"
proof -
  have l: "length (target_id a) < 64" "length (weapon_mode a) < 16" "length (aimed_location a) < 16"
    and q: \<open>CHR ''"'' \<notin> set (target_id a)\<close> \<open>CHR ''"'' \<notin> set (weapon_mode a)\<close>
      \<open>CHR ''"'' \<notin> set (aimed_location a)\<close>
    using assms by (simp_all add: fits_def dquote_def)
  note t = format_attack_text [OF assms(1) l]
  show ?thesis
    using l q
    by (simp add: decode_remote_action_def get_string_or_def json_get_string_def strncpy_def
      t lookup_defs search_simps)
qed

lemma format_use_item_text:
  assumes "action_type a = ''use-item''" "length (item_id a) < 32" "length (target_id a) < 64"
  shows "format_action sj a =
     ''{\"type\":\"action\",\"action\":\"use-item\",'' @
     ''\"itemId\":\"'' @ item_id a @ ''\",\"targetId\":\"'' @ target_id a @ ''\"}''"
  unfolding format_action_def using assms by (simp add: snprintf_fits)

lemma decode_format_use_item:
  assumes "action_type a = ''use-item''" "fits 32 (item_id a)" "fits 64 (target_id a)"
  shows "decode_remote_action (format_action sj a) =
     \<lparr>action_type = ''use-item'', target_tile = 0, target_id = target_id a,
      weapon_mode = [], aimed_location = [], item_id = item_id a\<rparr>"
proof -
  have l: "length (item_id a) < 32" "length (target_id a) < 64"
    and q: \<open>CHR ''"'' \<notin> set (target_id a)\<close> \<open>CHR ''"'' \<notin> set (item_id a)\<close>
    using assms by (simp_all add: fits_def dquote_def)
  note t = format_use_item_text [OF assms(1) l]
  show ?thesis
    using l q
    by (simp add: decode_remote_action_def get_string_or_def json_get_string_def strncpy_def
      t lookup_defs search_simps)
qed

lemma decode_format_end_turn:
  assumes "action_type a = ''end-turn''"
  shows "decode_remote_action (format_action sj a) =
     \<lparr>action_type = ''end-turn'', target_tile = 0, target_id = [], weapon_mode = [],
      aimed_location = [], item_id = []\<rparr>"
  using assms
  by (simp add: decode_remote_action_def get_string_or_def json_get_string_def strncpy_def
      format_action_def lookup_defs search_simps)


lemma format_action_type:
  assumes "action_type a = ''move'' \<or> action_type a = ''end-turn''
      \<or> action_type a = ''attack'' \<and> fits 64 (target_id a) \<and> fits 16 (weapon_mode a)
          \<and> fits 16 (aimed_location a)
      \<or> action_type a = ''use-item'' \<and> fits 32 (item_id a) \<and> fits 64 (target_id a)"
  shows "json_get_string (format_action sj a) ''type'' 32 = Some ''action''"
proof -
  consider (m) "action_type a = ''move''" | (e) "action_type a = ''end-turn''"
    | (a) "action_type a = ''attack''" "length (target_id a) < 64" "length (weapon_mode a) < 16"
          "length (aimed_location a) < 16"
    | (u) "action_type a = ''use-item''" "length (item_id a) < 32" "length (target_id a) < 64"
    using assms by (auto simp: fits_def)
  then show ?thesis
  proof cases
    case m
    then show ?thesis
      by (simp add: json_get_string_take format_move_text lookup_defs search_simps)
  next
    case e
    then show ?thesis
      by (simp add: json_get_string_take format_action_def lookup_defs search_simps)
  next
    case a
    then show ?thesis
      by (simp add: json_get_string_take format_attack_text lookup_defs search_simps)
  next
    case u
    then show ?thesis
      by (simp add: json_get_string_take format_use_item_text lookup_defs search_simps)
  qed
qed

lemma process_message_outbound:
  "json_get_string json ''type'' 32 = Some ''action'' \<Longrightarrow> process_message j json st = st"
  "json_get_string json ''type'' 32 = Some ''ready'' \<Longrightarrow> process_message j json st = st"
  "json_get_string json ''type'' 32 = Some ''state-update'' \<Longrightarrow> process_message j json st = st"
  by (rule process_message_unknown; simp)+

text \<open>
  Claim C2, as amended. For each of the six outbound messages, when every string field fits
  its array and holds no double quote, the lookups with which \<^verbatim>\<open>process_message\<close> fills a
  \<^verbatim>\<open>PlayerState\<close> or a \<^verbatim>\<open>PlayerAction\<close> give back, on the encoded frame, every field the
  message carries, and the default for the others: empty strings, zero and negative integers
  included, over the whole range of \<^verbatim>\<open>int\<close>. \<^verbatim>\<open>process_message\<close> itself does nothing with
  such a frame, whose type (\<^verbatim>\<open>ready\<close>, \<^verbatim>\<open>state-update\<close>, \<^verbatim>\<open>action\<close>) is none of the inbound
  ones.
\<close>

theorem decode_of_encode:
  "(fits 64 pid \<longrightarrow>
      json_get_string (format_ready pid) ''participantId'' 64 = Some pid
      \<and> process_message j (format_ready pid) st = st)
   \<and> (fits 64 (state_participant_id s) \<longrightarrow>
      decode_player_state (format_state s) = s
      \<and> process_message j (format_state s) st = st)
   \<and> (action_type a = ''move'' \<longrightarrow>
      decode_remote_action (format_action sj a) =
        \<lparr>action_type = ''move'', target_tile = target_tile a, target_id = [], weapon_mode = [],
         aimed_location = [], item_id = []\<rparr>
      \<and> process_message j (format_action sj a) st = st)
   \<and> (action_type a = ''attack'' \<and> fits 64 (target_id a) \<and> fits 16 (weapon_mode a)
        \<and> fits 16 (aimed_location a) \<longrightarrow>
      decode_remote_action (format_action sj a) =
        \<lparr>action_type = ''attack'', target_tile = 0, target_id = target_id a,
         weapon_mode = weapon_mode a, aimed_location = aimed_location a, item_id = []\<rparr>
      \<and> process_message j (format_action sj a) st = st)
   \<and> (action_type a = ''use-item'' \<and> fits 32 (item_id a) \<and> fits 64 (target_id a) \<longrightarrow>
      decode_remote_action (format_action sj a) =
        \<lparr>action_type = ''use-item'', target_tile = 0, target_id = target_id a,
         weapon_mode = [], aimed_location = [], item_id = item_id a\<rparr>
      \<and> process_message j (format_action sj a) st = st)
   \<and> (action_type a = ''end-turn'' \<longrightarrow>
      decode_remote_action (format_action sj a) =
        \<lparr>action_type = ''end-turn'', target_tile = 0, target_id = [], weapon_mode = [],
         aimed_location = [], item_id = []\<rparr>
      \<and> process_message j (format_action sj a) st = st)"
proof (intro conjI impI)
  assume "fits 64 pid"
  then show "json_get_string (format_ready pid) ''participantId'' 64 = Some pid"
    and "process_message j (format_ready pid) st = st"
    by (simp_all add: format_ready_lookups process_message_outbound)
next
  assume a: "fits 64 (state_participant_id s)"
  then show "decode_player_state (format_state s) = s" by (rule decode_format_state)
  from a have "length (state_participant_id s) < 64" by (simp add: fits_def)
  then show "process_message j (format_state s) st = st"
    by (simp add: format_state_type process_message_outbound)
next
  assume a: "action_type a = ''move''"
  then show "decode_remote_action (format_action sj a) =
        \<lparr>action_type = ''move'', target_tile = target_tile a, target_id = [], weapon_mode = [],
         aimed_location = [], item_id = []\<rparr>" by (rule decode_format_move)
  from a show "process_message j (format_action sj a) st = st"
    by (simp add: format_action_type process_message_outbound)
next
  assume a: "action_type a = ''attack'' \<and> fits 64 (target_id a) \<and> fits 16 (weapon_mode a)
        \<and> fits 16 (aimed_location a)"
  then show "decode_remote_action (format_action sj a) =
        \<lparr>action_type = ''attack'', target_tile = 0, target_id = target_id a,
         weapon_mode = weapon_mode a, aimed_location = aimed_location a, item_id = []\<rparr>"
    by (intro decode_format_attack) simp_all
  from a show "process_message j (format_action sj a) st = st"
    by (simp add: format_action_type process_message_outbound)
next
  assume a: "action_type a = ''use-item'' \<and> fits 32 (item_id a) \<and> fits 64 (target_id a)"
  then show "decode_remote_action (format_action sj a) =
        \<lparr>action_type = ''use-item'', target_tile = 0, target_id = target_id a,
         weapon_mode = [], aimed_location = [], item_id = item_id a\<rparr>"
    by (intro decode_format_use_item) simp_all
  from a show "process_message j (format_action sj a) st = st"
    by (simp add: format_action_type process_message_outbound)
next
  assume a: "action_type a = ''end-turn''"
  then show "decode_remote_action (format_action sj a) =
        \<lparr>action_type = ''end-turn'', target_tile = 0, target_id = [], weapon_mode = [],
         aimed_location = [], item_id = []\<rparr>" by (rule decode_format_end_turn)
  from a show "process_message j (format_action sj a) st = st"
    by (simp add: format_action_type process_message_outbound)
qed

theorem decode_of_encode_witness:
  "fits 64 [] \<and> fits 64 (state_participant_id example_player_state)
   \<and> fits 64 ''p2'' \<and> fits 16 ''burst'' \<and> fits 16 [] \<and> fits 32 ''stimpak''
   \<and> json_get_string (format_ready []) ''participantId'' 64 = Some []
   \<and> decode_player_state (format_state example_player_state) = example_player_state
   \<and> process_message [] (format_state example_player_state) p1_state = p1_state
   \<and> decode_remote_action (format_action [] (example_action ''move'')) =
        \<lparr>action_type = ''move'', target_tile = - 5, target_id = [], weapon_mode = [],
         aimed_location = [], item_id = []\<rparr>
   \<and> decode_remote_action (format_action [] (example_action ''attack'')) =
        \<lparr>action_type = ''attack'', target_tile = 0, target_id = ''p2'',
         weapon_mode = ''burst'', aimed_location = [], item_id = []\<rparr>
   \<and> decode_remote_action (format_action [] (example_action ''use-item'')) =
        \<lparr>action_type = ''use-item'', target_tile = 0, target_id = ''p2'',
         weapon_mode = [], aimed_location = [], item_id = ''stimpak''\<rparr>
   \<and> decode_remote_action (format_action [] (example_action ''end-turn'')) =
        \<lparr>action_type = ''end-turn'', target_tile = 0, target_id = [], weapon_mode = [],
         aimed_location = [], item_id = []\<rparr>"
proof -
  have f: "fits 64 []" "fits 64 (state_participant_id example_player_state)"
    "fits 64 ''p2''" "fits 16 ''burst''" "fits 16 []" "fits 32 ''stimpak''"
    by (simp_all add: fits_def dquote_def example_player_state_def)
  have x: "action_type (example_action ty) = ty" "target_tile (example_action ty) = - 5"
    "target_id (example_action ty) = ''p2''" "weapon_mode (example_action ty) = ''burst''"
    "aimed_location (example_action ty) = []" "item_id (example_action ty) = ''stimpak''" for ty
    by (simp_all add: example_action_def)
  note t = decode_of_encode [of "[]" "[]" p1_state example_player_state _ "[]"]
  from t [of "example_action ''move''"] f
  have 1: "json_get_string (format_ready []) ''participantId'' 64 = Some []"
    and 2: "decode_player_state (format_state example_player_state) = example_player_state"
    and 3: "process_message [] (format_state example_player_state) p1_state = p1_state"
    by blast+
  from t [of "example_action ''move''"] x
  have 4: "decode_remote_action (format_action [] (example_action ''move'')) =
        \<lparr>action_type = ''move'', target_tile = - 5, target_id = [], weapon_mode = [],
         aimed_location = [], item_id = []\<rparr>" by simp
  from t [of "example_action ''attack''"] x f
  have 5: "decode_remote_action (format_action [] (example_action ''attack'')) =
        \<lparr>action_type = ''attack'', target_tile = 0, target_id = ''p2'',
         weapon_mode = ''burst'', aimed_location = [], item_id = []\<rparr>" by simp
  from t [of "example_action ''use-item''"] x f
  have 6: "decode_remote_action (format_action [] (example_action ''use-item'')) =
        \<lparr>action_type = ''use-item'', target_tile = 0, target_id = ''p2'',
         weapon_mode = [], aimed_location = [], item_id = ''stimpak''\<rparr>" by simp
  from t [of "example_action ''end-turn''"] x
  have 7: "decode_remote_action (format_action [] (example_action ''end-turn'')) =
        \<lparr>action_type = ''end-turn'', target_tile = 0, target_id = [], weapon_mode = [],
         aimed_location = [], item_id = []\<rparr>" by simp
  from f 1 2 3 4 5 6 7 show ?thesis by blast
qed

text \<open>
  The claim as stated fails on a string with a double quote in it: the value read back stops
  at that quote.
\<close>

theorem decode_of_encode_quote_counterexample:
  \<open>json_get_string (format_ready ''a"b'') ''participantId'' 64 = Some ''a''
   \<and> state_participant_id quoted_id_state = ''a"b''
   \<and> state_participant_id (decode_player_state (format_state quoted_id_state)) = ''a''\<close>
proof -
  have l: "length (state_participant_id quoted_id_state) < 64"
    by (simp add: quoted_id_state_def)
  have 1: \<open>json_get_string (format_ready ''a"b'') ''participantId'' 64 = Some ''a''\<close>
    by (simp add: json_get_string_take format_ready_text lookup_defs search_simps)
  have 2: \<open>state_participant_id quoted_id_state = ''a"b''\<close>
    by (simp add: quoted_id_state_def)
  have \<open>json_find_string (format_state quoted_id_state) ''participantId'' = Some ''a''\<close>
    by (simp add: format_state_text [OF l] 2 lookup_defs search_simps)
  then have 3: \<open>state_participant_id (decode_player_state (format_state quoted_id_state)) = ''a''\<close>
    by (simp add: decode_player_state_def get_string_or_found)
  from 1 2 3 show ?thesis by blast
qed

end
